theory Spec2Isabelle
  imports Complex_Main
begin

section \<open>Python's Decimal arithmetic\<close>

text \<open>
  Positions, velocities and sizes are \<^verbatim>\<open>decimal.Decimal\<close> values. A finite Decimal is a
  rational number \<open>m * 10^e\<close>; the model keeps its value as a \<^typ>\<open>rat\<close>. Every arithmetic
  operation of Python's default context computes the exact result and rounds it to 28
  significant digits, ties to even (\<^verbatim>\<open>prec=28, rounding=ROUND_HALF_EVEN\<close>); comparisons
  and the builtins \<^verbatim>\<open>min\<close> and \<^verbatim>\<open>max\<close> are exact. The exponent limits of the context
  (\<^verbatim>\<open>Emax=999999\<close>) and the special values (NaN, Infinity) are outside the model.
\<close>

type_synonym decimal = rat

text \<open>The number of decimal digits of a positive integer.\<close>

function digits10 :: "int \<Rightarrow> int" where
  "digits10 n = (if n < 10 then 1 else 1 + digits10 (n div 10))"
  by pat_completeness auto
termination
  by (relation "measure nat") auto

declare digits10.simps [simp del]

definition pow10 :: "int \<Rightarrow> rat" where
  "pow10 e = (if 0 \<le> e then 10 ^ nat e else 1 / 10 ^ nat (- e))"

text \<open>The adjusted exponent of a non-zero value: the exponent of its leading digit.\<close>

definition adjusted :: "rat \<Rightarrow> int" where
  "adjusted v =
     (let a = \<bar>v\<bar> in
      if 1 \<le> a then digits10 \<lfloor>a\<rfloor> - 1
      else (let d = digits10 \<lfloor>1 / a\<rfloor>
            in if 1 \<le> a * pow10 (d - 1) then 1 - d else - d))"

definition round_half_even :: "rat \<Rightarrow> int" where
  "round_half_even q =
     (let f = \<lfloor>q\<rfloor>; r = q - of_int f in
      if r < 1 / 2 then f
      else if 1 / 2 < r then f + 1
      else if even f then f else f + 1)"

definition prec :: int where
  "prec = 28"

definition ctx_round :: "rat \<Rightarrow> decimal" where
  "ctx_round v =
     (if v = 0 then 0
      else (let e = adjusted v - (prec - 1)
            in of_int (round_half_even (v / pow10 e)) * pow10 e))"

definition dec_add :: "decimal \<Rightarrow> decimal \<Rightarrow> decimal" where
  "dec_add a b = ctx_round (a + b)"

definition dec_sub :: "decimal \<Rightarrow> decimal \<Rightarrow> decimal" where
  "dec_sub a b = ctx_round (a - b)"

definition dec_mul :: "decimal \<Rightarrow> decimal \<Rightarrow> decimal" where
  "dec_mul a b = ctx_round (a * b)"

definition dec_neg :: "decimal \<Rightarrow> decimal" where
  "dec_neg a = ctx_round (- a)"

definition dec_abs :: "decimal \<Rightarrow> decimal" where
  "dec_abs a = ctx_round \<bar>a\<bar>"

section \<open>Data model (app/models.py)\<close>

datatype GameObjectType = PLATFORM | COIN | ENEMY | POWER_UP | FLAG

datatype PlayerState = IDLE | RUNNING | JUMPING | FALLING | DEAD

record GameLevel =
  level_width :: int
  level_height :: int
  gravity :: decimal
  player_spawn_x :: decimal
  player_spawn_y :: decimal
  time_limit :: int

text \<open>
  \<^verbatim>\<open>GameObject.id\<close> is \<^verbatim>\<open>Optional[int]\<close>; the engine compares it with the entries of
  \<^verbatim>\<open>collected_objects\<close> and appends it there as it is, so both carry \<^typ>\<open>int option\<close>.
\<close>

record GameObject =
  obj_id :: "int option"
  object_type :: GameObjectType
  x_position :: decimal
  y_position :: decimal
  obj_width :: decimal
  obj_height :: decimal
  is_solid :: bool
  is_collectible :: bool
  points_value :: int

text \<open>
  The session row together with its \<^verbatim>\<open>level\<close> relationship, which the engine reads as
  \<^verbatim>\<open>session.level\<close>. The timestamps and the player relationship are never read or written
  by the engine and are left out.
\<close>

record GameSession =
  session_id :: "int option"
  player_id :: int
  level_id :: int
  current_score :: int
  coins_collected :: int
  lives_remaining :: int
  time_remaining :: int
  player_x :: decimal
  player_y :: decimal
  player_velocity_x :: decimal
  player_velocity_y :: decimal
  player_state :: PlayerState
  is_facing_right :: bool
  is_on_ground :: bool
  is_completed :: bool
  is_game_over :: bool
  collected_objects :: "int option list"
  level :: GameLevel

record GameConfig =
  player_speed :: decimal
  jump_strength :: decimal
  max_velocity_x :: decimal
  max_velocity_y :: decimal
  friction :: decimal
  air_resistance :: decimal
  coin_value :: int
  extra_life_score :: int

section \<open>Collision boxes (app/game\_service.py, CollisionBox)\<close>

record CollisionBox =
  box_x :: decimal
  box_y :: decimal
  box_width :: decimal
  box_height :: decimal

definition intersects :: "CollisionBox \<Rightarrow> CollisionBox \<Rightarrow> bool" where
  "intersects self other \<longleftrightarrow>
     box_x self < dec_add (box_x other) (box_width other)
     \<and> dec_add (box_x self) (box_width self) > box_x other
     \<and> box_y self < dec_add (box_y other) (box_height other)
     \<and> dec_add (box_y self) (box_height self) > box_y other"

definition get_overlap :: "CollisionBox \<Rightarrow> CollisionBox \<Rightarrow> decimal \<times> decimal" where
  "get_overlap self other =
     (let overlap_x =
            dec_sub (min (dec_add (box_x self) (box_width self))
                         (dec_add (box_x other) (box_width other)))
                    (max (box_x self) (box_x other));
          overlap_y =
            dec_sub (min (dec_add (box_y self) (box_height self))
                         (dec_add (box_y other) (box_height other)))
                    (max (box_y self) (box_y other))
      in (overlap_x, overlap_y))"

section \<open>The physics engine (GamePhysics.update\_player\_physics)\<close>

text \<open>
  \<^verbatim>\<open>keys_pressed\<close> is a dictionary from key names to booleans, read with
  \<^verbatim>\<open>.get(name, False)\<close>.
\<close>

type_synonym keys = "string \<rightharpoonup> bool"

definition key_get :: "keys \<Rightarrow> string \<Rightarrow> bool" where
  "key_get ks k = (case ks k of None \<Rightarrow> False | Some b \<Rightarrow> b)"

text \<open>
  \<^verbatim>\<open>delta_time\<close> is a float that enters the arithmetic only as
  \<^verbatim>\<open>Decimal(str(delta_time))\<close> and \<^verbatim>\<open>Decimal(str(delta_time * 10))\<close>. The float product
  and the printing of floats are not modelled: the two resulting decimals are the input.
\<close>

record delta_time =
  dt :: decimal
  dt10 :: decimal

text \<open>The default frame time \<^verbatim>\<open>1.0 / 60.0\<close>: it prints as \<^verbatim>\<open>0.016666666666666666\<close>, and
  ten times it as \<^verbatim>\<open>0.16666666666666666\<close>.\<close>

definition default_delta_time :: delta_time where
  "default_delta_time =
     \<lparr>dt = 16666666666666666 / 10 ^ 18, dt10 = 16666666666666666 / 10 ^ 17\<rparr>"

text \<open>Horizontal movement: input, else friction and the stop of very slow movement.\<close>

definition apply_horizontal :: "GameConfig \<Rightarrow> keys \<Rightarrow> delta_time \<Rightarrow> GameSession \<Rightarrow> GameSession" where
  "apply_horizontal config keys_pressed delta session =
     (let move_left = key_get keys_pressed ''ArrowLeft'' \<or> key_get keys_pressed ''a'';
          move_right = key_get keys_pressed ''ArrowRight'' \<or> key_get keys_pressed ''d''
      in if move_left then
           session\<lparr>player_velocity_x :=
                      max (dec_sub (player_velocity_x session)
                                   (dec_mul (player_speed config) (dt delta)))
                          (dec_neg (max_velocity_x config)),
                    is_facing_right := False\<rparr>
         else if move_right then
           session\<lparr>player_velocity_x :=
                      min (dec_add (player_velocity_x session)
                                   (dec_mul (player_speed config) (dt delta)))
                          (max_velocity_x config),
                    is_facing_right := True\<rparr>
         else
           (let vx = (if is_on_ground session
                      then dec_mul (player_velocity_x session) (friction config)
                      else dec_mul (player_velocity_x session) (air_resistance config))
            in session\<lparr>player_velocity_x := (if dec_abs vx < 1 / 10 then 0 else vx)\<rparr>))"

definition apply_jump :: "GameConfig \<Rightarrow> keys \<Rightarrow> GameSession \<Rightarrow> GameSession" where
  "apply_jump config keys_pressed session =
     (let jump = key_get keys_pressed '' '' \<or> key_get keys_pressed ''ArrowUp''
                 \<or> key_get keys_pressed ''w''
      in if jump \<and> is_on_ground session
         then session\<lparr>player_velocity_y := dec_neg (jump_strength config),
                      is_on_ground := False\<rparr>
         else session)"

definition apply_gravity :: "GameConfig \<Rightarrow> delta_time \<Rightarrow> GameSession \<Rightarrow> GameSession" where
  "apply_gravity config delta session =
     (if \<not> is_on_ground session
      then session\<lparr>player_velocity_y :=
                      min (dec_add (player_velocity_y session)
                                   (dec_mul (gravity (level session)) (dt delta)))
                          (max_velocity_y config)\<rparr>
      else session)"

text \<open>
  The state of the collision loop: the session being mutated, the locals \<^verbatim>\<open>new_x\<close> and
  \<^verbatim>\<open>new_y\<close>, and the list \<^verbatim>\<open>collectible_objects\<close>.
\<close>

record tick_state =
  sess :: GameSession
  new_x :: decimal
  new_y :: decimal
  collectible_objects :: "GameObject list"

definition obj_box :: "GameObject \<Rightarrow> CollisionBox" where
  "obj_box obj = \<lparr>box_x = x_position obj, box_y = y_position obj,
                   box_width = obj_width obj, box_height = obj_height obj\<rparr>"

text \<open>The handling of a solid object that the player's box intersects.\<close>

definition resolve_solid :: "CollisionBox \<Rightarrow> GameObject \<Rightarrow> tick_state \<Rightarrow> tick_state" where
  "resolve_solid player_box obj st =
     (let (overlap_x, overlap_y) = get_overlap player_box (obj_box obj) in
      if overlap_x < overlap_y then
        st\<lparr>new_x := (if player_velocity_x (sess st) > 0
                      then dec_sub (x_position obj) 24
                      else dec_add (x_position obj) (obj_width obj)),
           sess := (sess st)\<lparr>player_velocity_x := 0\<rparr>\<rparr>
      else if player_velocity_y (sess st) > 0 then
        st\<lparr>new_y := dec_sub (y_position obj) 32,
           sess := (sess st)\<lparr>player_velocity_y := 0, is_on_ground := True\<rparr>\<rparr>
      else
        st\<lparr>new_y := dec_add (y_position obj) (obj_height obj),
           sess := (sess st)\<lparr>player_velocity_y := 0\<rparr>\<rparr>)"

text \<open>One iteration of \<^verbatim>\<open>for obj in level_objects\<close>.\<close>

definition collision_step :: "CollisionBox \<Rightarrow> tick_state \<Rightarrow> GameObject \<Rightarrow> tick_state" where
  "collision_step player_box st obj =
     (if intersects player_box (obj_box obj) then
        if is_collectible obj \<and> obj_id obj \<notin> set (collected_objects (sess st))
        then st\<lparr>collectible_objects := collectible_objects st @ [obj]\<rparr>
        else if is_solid obj then resolve_solid player_box obj st
        else st
      else st)"

text \<open>One iteration of \<^verbatim>\<open>for obj in collectible_objects\<close>.\<close>

definition collect_step :: "GameSession \<Rightarrow> GameObject \<Rightarrow> GameSession" where
  "collect_step session obj =
     (if obj_id obj \<notin> set (collected_objects session)
      then session\<lparr>collected_objects := collected_objects session @ [obj_id obj],
                   coins_collected := coins_collected session + 1,
                   current_score := current_score session + points_value obj\<rparr>
      else session)"

definition update_state :: "GameSession \<Rightarrow> GameSession" where
  "update_state session =
     (if is_on_ground session then
        (if dec_abs (player_velocity_x session) > 1 / 10
         then session\<lparr>player_state := RUNNING\<rparr>
         else session\<lparr>player_state := IDLE\<rparr>)
      else
        (if player_velocity_y session < 0
         then session\<lparr>player_state := JUMPING\<rparr>
         else session\<lparr>player_state := FALLING\<rparr>))"

text \<open>The check for a fall through the bottom of the level, on the loop's final state.\<close>

definition fall_check :: "tick_state \<Rightarrow> tick_state" where
  "fall_check st =
     (if new_y st > of_int (level_height (level (sess st))) then
        (let session = (sess st)\<lparr>lives_remaining := lives_remaining (sess st) - 1\<rparr> in
         if lives_remaining session \<le> 0
         then st\<lparr>sess := session\<lparr>is_game_over := True\<rparr>\<rparr>
         else st\<lparr>new_x := player_spawn_x (level session),
                 new_y := player_spawn_y (level session),
                 sess := session\<lparr>player_velocity_x := 0, player_velocity_y := 0\<rparr>\<rparr>)
      else st)"

definition clamp_x :: "GameLevel \<Rightarrow> decimal \<Rightarrow> decimal" where
  "clamp_x lvl x = max 0 (min x (dec_sub (of_int (level_width lvl)) 24))"

text \<open>The velocities after input, jump and gravity, before the position is updated.\<close>

definition update_velocity :: "GameConfig \<Rightarrow> keys \<Rightarrow> delta_time \<Rightarrow> GameSession \<Rightarrow> GameSession" where
  "update_velocity config keys_pressed delta session =
     apply_gravity config delta
       (apply_jump config keys_pressed
         (apply_horizontal config keys_pressed delta session))"

text \<open>The loop's initial state: the tentative position, and \<^verbatim>\<open>is_on_ground\<close> reset.\<close>

definition tentative :: "delta_time \<Rightarrow> GameSession \<Rightarrow> tick_state" where
  "tentative delta session =
     \<lparr>sess = session\<lparr>is_on_ground := False\<rparr>,
      new_x = dec_add (player_x session) (dec_mul (player_velocity_x session) (dt10 delta)),
      new_y = dec_add (player_y session) (dec_mul (player_velocity_y session) (dt10 delta)),
      collectible_objects = []\<rparr>"

definition player_box_of :: "tick_state \<Rightarrow> CollisionBox" where
  "player_box_of st = \<lparr>box_x = new_x st, box_y = new_y st, box_width = 24, box_height = 32\<rparr>"

definition collision_pass :: "GameObject list \<Rightarrow> tick_state \<Rightarrow> tick_state" where
  "collision_pass level_objects st = foldl (collision_step (player_box_of st)) st level_objects"

definition handle_collectibles :: "tick_state \<Rightarrow> tick_state" where
  "handle_collectibles st = st\<lparr>sess := foldl collect_step (sess st) (collectible_objects st)\<rparr>"

definition commit :: "tick_state \<Rightarrow> GameSession" where
  "commit st = (sess st)\<lparr>player_x := clamp_x (level (sess st)) (new_x st), player_y := new_y st\<rparr>"

definition derive_state :: "tick_state \<Rightarrow> tick_state" where
  "derive_state st = st\<lparr>sess := update_state (sess st)\<rparr>"

text \<open>The loop state on which the fall check runs: after the collision pass, the credit of
  the queued collectibles and the derivation of \<^verbatim>\<open>player_state\<close>.\<close>

definition before_fall_check ::
    "GameConfig \<Rightarrow> GameSession \<Rightarrow> GameObject list \<Rightarrow> keys \<Rightarrow> delta_time \<Rightarrow> tick_state" where
  "before_fall_check config session level_objects keys_pressed delta =
     derive_state
       (handle_collectibles
         (collision_pass level_objects
           (tentative delta (update_velocity config keys_pressed delta session))))"

text \<open>One frame: the fall check and the horizontal clamp on that state, then the commit of
  \<^verbatim>\<open>new_x\<close> and \<^verbatim>\<open>new_y\<close> to the session, which is returned.\<close>

definition update_player_physics ::
    "GameConfig \<Rightarrow> GameSession \<Rightarrow> GameObject list \<Rightarrow> keys \<Rightarrow> delta_time \<Rightarrow> GameSession" where
  "update_player_physics config session level_objects keys_pressed delta =
     commit (fall_check (before_fall_check config session level_objects keys_pressed delta))"

text \<open>Consecutive ticks, each on the session the previous one returned.\<close>

fun run_ticks ::
    "GameConfig \<Rightarrow> GameObject list \<Rightarrow> (keys \<times> delta_time) list \<Rightarrow> GameSession \<Rightarrow> GameSession" where
  "run_ticks config level_objects [] session = session"
| "run_ticks config level_objects ((k, d) # inputs) session =
     run_ticks config level_objects inputs
       (update_player_physics config session level_objects k d)"

text \<open>The horizontal velocity that the branch without horizontal input computes: friction
  on the ground, air resistance off it, and very slow movement stopped.\<close>

definition coast :: "GameConfig \<Rightarrow> bool \<Rightarrow> decimal \<Rightarrow> decimal" where
  "coast config grounded vx =
     (let v = dec_mul vx (if grounded then friction config else air_resistance config)
      in if dec_abs v < 1 / 10 then 0 else v)"

section \<open>The reference data (GameConfig defaults, GameService.create\_default\_level)\<close>

definition default_config :: GameConfig where
  "default_config =
     \<lparr>player_speed = 5, jump_strength = 15, max_velocity_x = 8, max_velocity_y = 20,
      friction = 8 / 10, air_resistance = 95 / 100, coin_value = 100,
      extra_life_score = 10000\<rparr>"

definition world_1_1 :: GameLevel where
  "world_1_1 =
     \<lparr>level_width = 2400, level_height = 600, gravity = 8 / 10,
      player_spawn_x = 100, player_spawn_y = 400, time_limit = 400\<rparr>"

text \<open>The main ground platform and the first coin of the default level.\<close>

definition main_ground :: GameObject where
  "main_ground =
     \<lparr>obj_id = Some 1, object_type = PLATFORM, x_position = 0, y_position = 550,
      obj_width = 800, obj_height = 50, is_solid = True, is_collectible = False,
      points_value = 0\<rparr>"

definition first_coin :: GameObject where
  "first_coin =
     \<lparr>obj_id = Some 7, object_type = COIN, x_position = 200, y_position = 300,
      obj_width = 24, obj_height = 24, is_solid = False, is_collectible = True,
      points_value = 100\<rparr>"

text \<open>\<^verbatim>\<open>GameService.start_new_session\<close>: the field defaults of \<^verbatim>\<open>GameSession\<close>, with the
  position at the level's spawn point and the level's time limit. The id that the database
  assigns on commit is taken to be 1; the engine never reads it.\<close>

definition start_new_session :: "int \<Rightarrow> int \<Rightarrow> GameLevel \<Rightarrow> GameSession" where
  "start_new_session pid lid lvl =
     \<lparr>session_id = Some 1, player_id = pid, level_id = lid, current_score = 0,
      coins_collected = 0, lives_remaining = 3, time_remaining = time_limit lvl,
      player_x = player_spawn_x lvl, player_y = player_spawn_y lvl,
      player_velocity_x = 0, player_velocity_y = 0, player_state = IDLE,
      is_facing_right = True, is_on_ground = False, is_completed = False,
      is_game_over = False, collected_objects = [], level = lvl\<rparr>"

definition no_keys :: keys where
  "no_keys = Map.empty"

text \<open>A session about to fall through the bottom of the default level, with a given number
  of lives.\<close>

definition falling_session :: "int \<Rightarrow> GameSession" where
  "falling_session lives =
     (start_new_session 1 1 world_1_1)
       \<lparr>lives_remaining := lives, player_y := 599, player_velocity_y := 20\<rparr>"

text \<open>A block that is both solid and collectible (\<^verbatim>\<open>is_solid\<close> defaults to true), and a
  session falling onto it from just above.\<close>

definition solid_coin :: GameObject where
  "solid_coin =
     \<lparr>obj_id = Some 9, object_type = COIN, x_position = 0, y_position = 550,
      obj_width = 800, obj_height = 50, is_solid = True, is_collectible = True,
      points_value = 100\<rparr>"

definition landing_session :: GameSession where
  "landing_session =
     (start_new_session 1 1 world_1_1)\<lparr>player_y := 518, player_velocity_y := 2\<rparr>"

text \<open>A session whose player stands in the first coin, before and after the coin's credit.\<close>

definition coin_session :: GameSession where
  "coin_session = (start_new_session 1 1 world_1_1)\<lparr>player_x := 200, player_y := 300\<rparr>"

definition coin_session_credited :: GameSession where
  "coin_session_credited =
     coin_session\<lparr>current_score := 100, coins_collected := 1, collected_objects := [Some 7]\<rparr>"

text \<open>A session at rest on the main ground, moving right at 10.\<close>

definition sliding_session :: GameSession where
  "sliding_session =
     (start_new_session 1 1 world_1_1)
       \<lparr>player_y := 518, player_velocity_x := 10, is_on_ground := True\<rparr>"

text \<open>A session of the default level in free fall at the spawn's x, at height \<open>y\<close> with
  vertical velocity \<open>vy\<close>.\<close>

definition falling_at :: "decimal \<Rightarrow> decimal \<Rightarrow> GameSession" where
  "falling_at y vy =
     (start_new_session 1 1 world_1_1)
       \<lparr>player_y := y, player_velocity_y := vy, player_state := FALLING\<rparr>"

text \<open>The state of the collision loop for a player box one pixel into the ground.\<close>

definition sunk_state :: tick_state where
  "sunk_state =
     \<lparr>sess = (start_new_session 1 1 world_1_1)\<lparr>player_velocity_y := 2\<rparr>,
      new_x = 100, new_y = 519, collectible_objects = []\<rparr>"

section \<open>Evaluation of the decimal arithmetic on numerals\<close>

lemma digits10_numeral:
  "digits10 (numeral k) = (if numeral k < (10::int) then 1 else 1 + digits10 (numeral k div 10))"
  by (rule digits10.simps)

lemma digits10_0: "digits10 0 = 1"
  by (simp add: digits10.simps)

lemma digits10_1: "digits10 1 = 1"
  by (simp add: digits10.simps)

lemma floor_rat_numeral_divide:
  "\<lfloor>numeral a / numeral b :: rat\<rfloor> = numeral a div numeral b"
  by (metis floor_divide_of_int_eq of_int_numeral)

lemma floor_rat_one_divide:
  "\<lfloor>1 / numeral b :: rat\<rfloor> = 1 div numeral b"
  by (metis floor_divide_of_int_eq of_int_1 of_int_numeral)

lemma floor_rat_minus_divide:
  "\<lfloor>- (numeral a / numeral b) :: rat\<rfloor> = - numeral a div numeral b"
  by (metis divide_minus_left floor_divide_of_int_eq of_int_neg_numeral of_int_numeral)

lemma floor_rat_minus_one_divide:
  "\<lfloor>- (1 / numeral b) :: rat\<rfloor> = - 1 div numeral b"
  by (metis divide_minus_left floor_divide_of_int_eq of_int_1 of_int_minus of_int_numeral)

lemmas dec_eval = ctx_round_def adjusted_def round_half_even_def pow10_def prec_def
  digits10_numeral digits10_0 digits10_1
  floor_rat_numeral_divide floor_rat_one_divide floor_rat_minus_divide floor_rat_minus_one_divide
  dec_add_def dec_sub_def dec_mul_def dec_neg_def dec_abs_def Let_def

lemmas engine_eval = update_player_physics_def before_fall_check_def derive_state_def
  tentative_def update_velocity_def apply_horizontal_def
  apply_jump_def apply_gravity_def collision_pass_def collision_step_def resolve_solid_def
  handle_collectibles_def collect_step_def update_state_def fall_check_def commit_def clamp_x_def
  player_box_of_def obj_box_def intersects_def get_overlap_def key_get_def

lemmas example_defs = default_config_def world_1_1_def main_ground_def first_coin_def
  start_new_session_def no_keys_def default_delta_time_def falling_session_def solid_coin_def
  landing_session_def sunk_state_def coin_session_def coin_session_credited_def
  sliding_session_def

text \<open>
  The rounding on values of 29 and more digits, as Python computes them: a tie goes to the
  even neighbour, in both directions and for both signs, and a carry out of the 28 digits
  raises the exponent.
\<close>

lemma ctx_round_examples:
  "ctx_round (12345678901234567890123456785 / 10) = 1234567890123456789012345678"
  "ctx_round (12345678901234567890123456775 / 10) = 1234567890123456789012345678"
  "ctx_round (12345678901234567890123456786 / 10) = 1234567890123456789012345679"
  "ctx_round (- 12345678901234567890123456775 / 10 ^ 40) = - 1234567890123456789012345678 / 10 ^ 39"
  "ctx_round (- 99999999999999999999999999995 / 10 ^ 3) = - (10 ^ 26)"
  "ctx_round (16666666666666666 / 10 ^ 17 * (133333333333333328 / 10 ^ 19)) =
     2222222222222222044444444444 / 10 ^ 30"
  "ctx_round (1 / 10) = 1 / 10"
  by (simp_all add: dec_eval)

section \<open>Properties of the rounding\<close>

lemma pow10_pos: "0 < pow10 e"
  by (simp add: pow10_def)

lemma round_half_even_nonneg: "0 \<le> q \<Longrightarrow> 0 \<le> round_half_even q"
  by (simp add: round_half_even_def Let_def)

lemma ctx_round_nonneg: "0 \<le> v \<Longrightarrow> 0 \<le> ctx_round v"
  using pow10_pos [of "adjusted v - (prec - 1)"]
  by (simp add: ctx_round_def Let_def round_half_even_nonneg less_imp_le)

lemma round_half_even_of_int: "round_half_even (of_int z) = z"
  by (simp add: round_half_even_def)

lemma digits10_pos: "1 \<le> digits10 n"
  by (induction n rule: digits10.induct) (subst digits10.simps, auto)

lemma digits10_le: "n < 10 ^ k \<Longrightarrow> 0 < k \<Longrightarrow> digits10 n \<le> int k"
proof (induction k arbitrary: n)
  case 0
  then show ?case by simp
next
  case (Suc k)
  show ?case
  proof (cases "n < 10")
    case True
    then show ?thesis by (subst digits10.simps) simp
  next
    case False
    with Suc.prems have k: "0 < k" by (cases k) auto
    from Suc.prems have "n < 10 * 10 ^ k" by simp
    then have "n div 10 < 10 ^ k" by linarith
    with Suc.IH k have "digits10 (n div 10) \<le> int k" by blast
    with False show ?thesis by (subst digits10.simps) simp
  qed
qed

lemma ctx_round_of_int:
  assumes "\<bar>n\<bar> < 10 ^ 28"
  shows "ctx_round (of_int n) = of_int n"
proof (cases "n = 0")
  case True
  then show ?thesis by (simp add: ctx_round_def)
next
  case False
  then have a1: "(1::rat) \<le> \<bar>of_int n\<bar>"
    by (metis less_le of_int_abs of_int_1 of_int_le_iff zero_less_abs_iff zless_imp_add1_zle add_0)
  have fl: "\<lfloor>\<bar>of_int n :: rat\<bar>\<rfloor> = \<bar>n\<bar>"
    by (metis floor_of_int of_int_abs)
  define k where "k = nat (28 - digits10 \<bar>n\<bar>)"
  have "digits10 \<bar>n\<bar> \<le> 28"
    using digits10_le [of "\<bar>n\<bar>" 28] assms by simp
  then have e: "adjusted (of_int n) - (prec - 1) = - int k"
    using a1 by (simp add: adjusted_def fl prec_def k_def)
  have p: "pow10 (- int k) = 1 / 10 ^ k"
    by (simp add: pow10_def)
  have "(of_int n :: rat) / pow10 (- int k) = of_int (n * 10 ^ k)"
    by (simp add: p)
  then have "round_half_even (of_int n / pow10 (- int k)) = n * 10 ^ k"
    by (simp only: round_half_even_of_int)
  then show ?thesis
    using False by (simp add: ctx_round_def e p)
qed


text \<open>
  The adjusted exponent is the exponent of the leading digit, so a value of at most 28
  significant digits is left as it is by the rounding: operations whose exact result
  fits the precision are exact.
\<close>

lemma pow10_powi: "pow10 e = 10 powi e"
  by (simp add: pow10_def power_int_def field_simps)

lemma digits10_bounds:
  "1 \<le> n \<Longrightarrow> 10 ^ nat (digits10 n - 1) \<le> n \<and> n < 10 ^ nat (digits10 n)"
proof (induction n rule: digits10.induct)
  case (1 n)
  show ?case
  proof (cases "n < 10")
    case True
    with "1.prems" show ?thesis by (subst (1 2) digits10.simps) simp
  next
    case False
    then have ge: "1 \<le> n div 10" by simp
    from "1.IH" [OF False ge]
    have lo: "10 ^ nat (digits10 (n div 10) - 1) \<le> n div 10"
      and hi: "n div 10 < 10 ^ nat (digits10 (n div 10))" by simp_all
    have d: "nat (digits10 (n div 10)) = Suc (nat (digits10 (n div 10) - 1))"
      using digits10_pos [of "n div 10"] by simp
    have eq: "digits10 n = 1 + digits10 (n div 10)"
      using False by (subst digits10.simps) simp
    have "10 * 10 ^ nat (digits10 (n div 10) - 1) \<le> 10 * (n div 10)"
      using lo by simp
    also have "\<dots> \<le> n" by simp
    finally have a: "10 ^ nat (digits10 n - 1) \<le> n"
      by (simp add: eq d)
    have "n < 10 * (n div 10 + 1)" by simp
    also have "\<dots> \<le> 10 * 10 ^ nat (digits10 (n div 10))"
      using hi by simp
    finally have b: "n < 10 ^ nat (digits10 n)"
      using digits10_pos [of "n div 10"] by (simp add: eq nat_add_distrib)
    from a b show ?thesis ..
  qed
qed

lemma digits10_powi:
  assumes "1 \<le> n"
  shows "(10::rat) powi (digits10 n - 1) \<le> of_int n" "of_int n + 1 \<le> (10::rat) powi digits10 n"
proof -
  from digits10_bounds [OF assms]
  have lo: "10 ^ nat (digits10 n - 1) \<le> n" and hi: "n + 1 \<le> 10 ^ nat (digits10 n)"
    by simp_all
  have p: "0 \<le> digits10 n - 1" "0 \<le> digits10 n"
    using digits10_pos [of n] by simp_all
  from lo have "(of_int (10 ^ nat (digits10 n - 1)) :: rat) \<le> of_int n"
    by (simp only: of_int_le_iff)
  then show "(10::rat) powi (digits10 n - 1) \<le> of_int n"
    by (simp add: power_int_nonneg_exp [OF p(1)])
  from hi have "(of_int (n + 1) :: rat) \<le> of_int (10 ^ nat (digits10 n))"
    by (simp only: of_int_le_iff)
  then show "of_int n + 1 \<le> (10::rat) powi digits10 n"
    by (simp add: power_int_nonneg_exp [OF p(2)])
qed

lemma adjusted_bounds:
  assumes "v \<noteq> 0"
  shows "10 powi adjusted v \<le> \<bar>v\<bar>" "\<bar>v\<bar> < 10 powi (adjusted v + 1)"
proof -
  define a where "a = \<bar>v\<bar>"
  have a0: "0 < a" using assms by (simp add: a_def)
  have "10 powi adjusted v \<le> a \<and> a < 10 powi (adjusted v + 1)"
  proof (cases "1 \<le> a")
    case True
    then have n: "1 \<le> \<lfloor>a\<rfloor>" by simp
    have adj: "adjusted v = digits10 \<lfloor>a\<rfloor> - 1"
      using True by (simp add: adjusted_def a_def)
    have "(10::rat) powi (digits10 \<lfloor>a\<rfloor> - 1) \<le> of_int \<lfloor>a\<rfloor>"
      by (rule digits10_powi(1) [OF n])
    also have "\<dots> \<le> a" by simp
    finally have lo: "10 powi adjusted v \<le> a" by (simp add: adj)
    have "a < of_int \<lfloor>a\<rfloor> + 1" using floor_correct [of a] by simp
    also have "\<dots> \<le> 10 powi digits10 \<lfloor>a\<rfloor>"
      by (rule digits10_powi(2) [OF n])
    finally have "a < 10 powi (adjusted v + 1)" by (simp add: adj)
    with lo show ?thesis ..
  next
    case False
    define b where "b = 1 / a"
    define d where "d = digits10 \<lfloor>b\<rfloor>"
    have b1: "1 < b" using False a0 by (simp add: b_def)
    then have n: "1 \<le> \<lfloor>b\<rfloor>" by simp
    have ab: "a = 1 / b" using a0 by (simp add: b_def)
    have "b < of_int \<lfloor>b\<rfloor> + 1" using floor_correct [of b] by simp
    also have "\<dots> \<le> 10 powi d"
      unfolding d_def by (rule digits10_powi(2) [OF n])
    finally have bhi: "b < 10 powi d" .
    have b0: "0 < b" using b1 by simp
    have "1 / (10 powi d) < 1 / b"
      using bhi b0 by (simp add: frac_less2)
    then have lo: "10 powi (- d) < a"
      by (simp add: ab power_int_minus_divide)
    have adj: "adjusted v = (if 1 \<le> a * pow10 (d - 1) then 1 - d else - d)"
      using False by (simp add: adjusted_def a_def [symmetric] b_def [symmetric] d_def Let_def)
    show ?thesis
    proof (cases "1 \<le> a * pow10 (d - 1)")
      case True
      then have "1 / 10 powi (d - 1) \<le> a"
        by (simp add: pow10_powi field_simps)
      then have l: "10 powi (1 - d) \<le> a"
        using power_int_minus_divide [of "10::rat" "d - 1"] by simp
      have "(10::rat) powi (d - 1) \<le> of_int \<lfloor>b\<rfloor>"
        unfolding d_def by (rule digits10_powi(1) [OF n])
      also have "\<dots> \<le> b" by simp
      finally have "10 powi (d - 1) \<le> b" .
      then have "a \<le> 1 / 10 powi (d - 1)"
        using a0 by (simp add: b_def field_simps)
      then have "a \<le> 10 powi (1 - d)"
        using power_int_minus_divide [of "10::rat" "d - 1"] by simp
      also have "\<dots> < 10 powi (2 - d)"
        by (rule power_int_strict_increasing) simp_all
      finally have "a < 10 powi (2 - d)" .
      with l show ?thesis by (simp add: adj True)
    next
      case False
      then have "a * 10 powi (d - 1) < 1" by (simp add: pow10_powi)
      then have "a < 1 / 10 powi (d - 1)"
        by (simp add: field_simps)
      then have "a < 10 powi (1 - d)"
        using power_int_minus_divide [of "10::rat" "d - 1"] by simp
      with lo show ?thesis by (simp add: adj False)
    qed
  qed
  then show "10 powi adjusted v \<le> \<bar>v\<bar>" "\<bar>v\<bar> < 10 powi (adjusted v + 1)"
    by (simp_all add: a_def)
qed

lemma ctx_round_exact:
  assumes "\<bar>m\<bar> < 10 ^ 28"
  shows "ctx_round (of_int m * pow10 k) = of_int m * pow10 k"
proof (cases "m = 0")
  case True
  then show ?thesis by (simp add: ctx_round_def)
next
  case False
  define v :: rat where "v = of_int m * 10 powi k"
  define e where "e = adjusted v - (prec - 1)"
  have v0: "v \<noteq> 0" using False by (simp add: v_def)
  have "\<bar>v\<bar> = of_int \<bar>m\<bar> * 10 powi k"
    by (simp add: v_def abs_mult)
  also have "\<dots> < of_int (10 ^ 28) * 10 powi k"
    using assms by (intro mult_strict_right_mono) (simp_all only: of_int_less_iff zero_less_power_int zero_less_numeral)
  also have "\<dots> = 10 powi (28 + k)"
    by (simp add: power_int_add)
  finally have "10 powi adjusted v < (10::rat) powi (28 + k)"
    using adjusted_bounds(1) [OF v0] by simp
  then have "adjusted v < 28 + k"
    by (metis linorder_not_le one_le_numeral power_int_increasing)
  then have ek: "e \<le> k" by (simp add: e_def prec_def)
  define j where "j = nat (k - e)"
  have "(10::rat) powi k = 10 powi (e + int j)"
    using ek by (simp add: j_def)
  also have "\<dots> = 10 powi e * 10 ^ j"
    by (simp add: power_int_add)
  finally have k: "(10::rat) powi k = 10 powi e * 10 ^ j" .
  have "v / pow10 e = of_int (m * 10 ^ j)"
    by (simp add: v_def pow10_powi k)
  then have "round_half_even (v / pow10 e) = m * 10 ^ j"
    by (simp only: round_half_even_of_int)
  then have "ctx_round v = of_int (m * 10 ^ j) * pow10 e"
    using v0 by (simp add: ctx_round_def e_def [symmetric] Let_def)
  also have "\<dots> = v"
    by (simp add: v_def pow10_powi k)
  finally show ?thesis by (simp add: v_def pow10_powi)
qed

lemma dec_add_exact:
  assumes "\<bar>m\<bar> < 10 ^ 28" and "a + b = of_int m * pow10 k"
  shows "dec_add a b = a + b"
  using ctx_round_exact [OF assms(1), of k] by (simp add: dec_add_def assms(2))

section \<open>What each phase of a frame leaves unchanged\<close>

lemma update_velocity_frame:
  "is_completed (update_velocity c k d s) = is_completed s"
  "is_game_over (update_velocity c k d s) = is_game_over s"
  "time_remaining (update_velocity c k d s) = time_remaining s"
  "coins_collected (update_velocity c k d s) = coins_collected s"
  "current_score (update_velocity c k d s) = current_score s"
  "collected_objects (update_velocity c k d s) = collected_objects s"
  "lives_remaining (update_velocity c k d s) = lives_remaining s"
  "level (update_velocity c k d s) = level s"
  "player_x (update_velocity c k d s) = player_x s"
  "player_y (update_velocity c k d s) = player_y s"
  by (simp_all add: update_velocity_def apply_gravity_def apply_jump_def apply_horizontal_def Let_def)

lemma collision_step_sess:
  "\<exists>vx vy g. sess (collision_step pb st obj) =
      (sess st)\<lparr>player_velocity_x := vx, player_velocity_y := vy, is_on_ground := g\<rparr>"
proof -
  have keep: "\<exists>vx vy g. sess st = (sess st)\<lparr>player_velocity_x := vx, player_velocity_y := vy, is_on_ground := g\<rparr>"
    by (rule exI [of _ "player_velocity_x (sess st)"], rule exI [of _ "player_velocity_y (sess st)"],
        rule exI [of _ "is_on_ground (sess st)"]) simp
  have hor: "\<exists>vx vy g. (sess st)\<lparr>player_velocity_x := 0\<rparr> = (sess st)\<lparr>player_velocity_x := vx, player_velocity_y := vy, is_on_ground := g\<rparr>"
    by (rule exI [of _ 0], rule exI [of _ "player_velocity_y (sess st)"],
        rule exI [of _ "is_on_ground (sess st)"]) simp
  have land: "\<exists>vx vy g. (sess st)\<lparr>player_velocity_y := 0, is_on_ground := True\<rparr> = (sess st)\<lparr>player_velocity_x := vx, player_velocity_y := vy, is_on_ground := g\<rparr>"
    by (rule exI [of _ "player_velocity_x (sess st)"], rule exI [of _ 0],
        rule exI [of _ True]) simp
  have bump: "\<exists>vx vy g. (sess st)\<lparr>player_velocity_y := 0\<rparr> = (sess st)\<lparr>player_velocity_x := vx, player_velocity_y := vy, is_on_ground := g\<rparr>"
    by (rule exI [of _ "player_velocity_x (sess st)"], rule exI [of _ 0],
        rule exI [of _ "is_on_ground (sess st)"]) simp
  show ?thesis
    using keep hor land bump
    by (simp add: collision_step_def resolve_solid_def split: prod.splits)
qed

lemma collision_fold_sess:
  "\<exists>vx vy g. sess (foldl (collision_step pb) st os) =
      (sess st)\<lparr>player_velocity_x := vx, player_velocity_y := vy, is_on_ground := g\<rparr>"
proof (induction os arbitrary: st)
  case Nil
  show ?case
    by (rule exI [of _ "player_velocity_x (sess st)"], rule exI [of _ "player_velocity_y (sess st)"],
        rule exI [of _ "is_on_ground (sess st)"]) simp
next
  case (Cons obj os)
  obtain vx vy g where 1: "sess (collision_step pb st obj) =
      (sess st)\<lparr>player_velocity_x := vx, player_velocity_y := vy, is_on_ground := g\<rparr>"
    using collision_step_sess by blast
  obtain vx' vy' g' where 2: "sess (foldl (collision_step pb) (collision_step pb st obj) os) =
      (sess (collision_step pb st obj))\<lparr>player_velocity_x := vx', player_velocity_y := vy', is_on_ground := g'\<rparr>"
    using Cons.IH by blast
  show ?case
    by (rule exI [of _ vx'], rule exI [of _ vy'], rule exI [of _ g']) (simp add: 1 2)
qed

lemma collision_pass_sess:
  "\<exists>vx vy g. sess (collision_pass os st) =
      (sess st)\<lparr>player_velocity_x := vx, player_velocity_y := vy, is_on_ground := g\<rparr>"
  unfolding collision_pass_def by (rule collision_fold_sess)

lemma collision_pass_frame:
  "is_completed (sess (collision_pass os st)) = is_completed (sess st)"
  "is_game_over (sess (collision_pass os st)) = is_game_over (sess st)"
  "time_remaining (sess (collision_pass os st)) = time_remaining (sess st)"
  "coins_collected (sess (collision_pass os st)) = coins_collected (sess st)"
  "current_score (sess (collision_pass os st)) = current_score (sess st)"
  "collected_objects (sess (collision_pass os st)) = collected_objects (sess st)"
  "lives_remaining (sess (collision_pass os st)) = lives_remaining (sess st)"
  "level (sess (collision_pass os st)) = level (sess st)"
  using collision_pass_sess [of os st] by auto

lemma collect_fold_frame:
  "is_completed (foldl collect_step s q) = is_completed s"
  "is_game_over (foldl collect_step s q) = is_game_over s"
  "time_remaining (foldl collect_step s q) = time_remaining s"
  "lives_remaining (foldl collect_step s q) = lives_remaining s"
  "level (foldl collect_step s q) = level s"
  "player_velocity_x (foldl collect_step s q) = player_velocity_x s"
  "player_velocity_y (foldl collect_step s q) = player_velocity_y s"
  "is_on_ground (foldl collect_step s q) = is_on_ground s"
  by (induction q arbitrary: s; simp add: collect_step_def)+

lemma update_state_frame:
  "is_completed (update_state s) = is_completed s"
  "is_game_over (update_state s) = is_game_over s"
  "time_remaining (update_state s) = time_remaining s"
  "coins_collected (update_state s) = coins_collected s"
  "current_score (update_state s) = current_score s"
  "collected_objects (update_state s) = collected_objects s"
  "lives_remaining (update_state s) = lives_remaining s"
  "level (update_state s) = level s"
  "player_velocity_x (update_state s) = player_velocity_x s"
  "player_velocity_y (update_state s) = player_velocity_y s"
  "is_on_ground (update_state s) = is_on_ground s"
  by (simp_all add: update_state_def)

lemma tentative_sess:
  "sess (tentative d s) = s\<lparr>is_on_ground := False\<rparr>"
  by (simp add: tentative_def)

lemmas frame_simps = update_player_physics_def before_fall_check_def derive_state_def
  commit_def fall_check_def Let_def handle_collectibles_def update_state_frame collect_fold_frame collision_pass_frame
  tentative_sess update_velocity_frame

lemma collect_fold_agree:
  assumes "collected_objects s = collected_objects t" "coins_collected s = coins_collected t"
    "current_score s = current_score t"
  shows "collected_objects (foldl collect_step s q) = collected_objects (foldl collect_step t q)
     \<and> coins_collected (foldl collect_step s q) = coins_collected (foldl collect_step t q)
     \<and> current_score (foldl collect_step s q) = current_score (foldl collect_step t q)"
  using assms
proof (induction q arbitrary: s t)
  case Nil
  then show ?case by simp
next
  case (Cons obj q)
  have "collected_objects (collect_step s obj) = collected_objects (collect_step t obj)"
    "coins_collected (collect_step s obj) = coins_collected (collect_step t obj)"
    "current_score (collect_step s obj) = current_score (collect_step t obj)"
    using Cons.prems by (simp_all add: collect_step_def)
  then show ?case
    using Cons.IH [of "collect_step s obj" "collect_step t obj"] by simp
qed

lemma fall_check_credit:
  "coins_collected (sess (fall_check st)) = coins_collected (sess st)"
  "current_score (sess (fall_check st)) = current_score (sess st)"
  "collected_objects (sess (fall_check st)) = collected_objects (sess st)"
  by (simp_all add: fall_check_def Let_def)

lemma tick_credit:
  "collected_objects (update_player_physics c s os k d) =
     collected_objects (foldl collect_step s
       (collectible_objects (collision_pass os (tentative d (update_velocity c k d s)))))
   \<and> coins_collected (update_player_physics c s os k d) =
     coins_collected (foldl collect_step s
       (collectible_objects (collision_pass os (tentative d (update_velocity c k d s)))))
   \<and> current_score (update_player_physics c s os k d) =
     current_score (foldl collect_step s
       (collectible_objects (collision_pass os (tentative d (update_velocity c k d s)))))"
proof -
  let ?st = "collision_pass os (tentative d (update_velocity c k d s))"
  have "collected_objects (sess ?st) = collected_objects s"
    "coins_collected (sess ?st) = coins_collected s"
    "current_score (sess ?st) = current_score s"
    by (simp_all add: collision_pass_frame tentative_sess update_velocity_frame)
  from collect_fold_agree [OF this, of "collectible_objects ?st"]
  show ?thesis
    by (simp add: update_player_physics_def before_fall_check_def derive_state_def commit_def
        fall_check_credit update_state_frame handle_collectibles_def)
qed

section \<open>The tick and the terminal flags\<close>

lemma apply_horizontal_flags:
  "apply_horizontal c k d (s\<lparr>is_completed := b\<rparr>) = (apply_horizontal c k d s)\<lparr>is_completed := b\<rparr>"
  "apply_horizontal c k d (s\<lparr>is_game_over := g\<rparr>) = (apply_horizontal c k d s)\<lparr>is_game_over := g\<rparr>"
  by (simp_all add: apply_horizontal_def Let_def)

lemma apply_jump_flags:
  "apply_jump c k (s\<lparr>is_completed := b\<rparr>) = (apply_jump c k s)\<lparr>is_completed := b\<rparr>"
  "apply_jump c k (s\<lparr>is_game_over := g\<rparr>) = (apply_jump c k s)\<lparr>is_game_over := g\<rparr>"
  by (simp_all add: apply_jump_def Let_def)

lemma apply_gravity_flags:
  "apply_gravity c d (s\<lparr>is_completed := b\<rparr>) = (apply_gravity c d s)\<lparr>is_completed := b\<rparr>"
  "apply_gravity c d (s\<lparr>is_game_over := g\<rparr>) = (apply_gravity c d s)\<lparr>is_game_over := g\<rparr>"
  by (simp_all add: apply_gravity_def)

lemma update_velocity_flags:
  "update_velocity c k d (s\<lparr>is_completed := b\<rparr>) = (update_velocity c k d s)\<lparr>is_completed := b\<rparr>"
  "update_velocity c k d (s\<lparr>is_game_over := g\<rparr>) = (update_velocity c k d s)\<lparr>is_game_over := g\<rparr>"
  by (simp_all add: update_velocity_def apply_horizontal_flags apply_jump_flags apply_gravity_flags)

lemma tentative_flags:
  "tentative d (s\<lparr>is_completed := b\<rparr>) = (tentative d s)\<lparr>sess := (sess (tentative d s))\<lparr>is_completed := b\<rparr>\<rparr>"
  "tentative d (s\<lparr>is_game_over := g\<rparr>) = (tentative d s)\<lparr>sess := (sess (tentative d s))\<lparr>is_game_over := g\<rparr>\<rparr>"
  by (simp_all add: tentative_def)

lemma collision_step_flags:
  "collision_step pb (st\<lparr>sess := (sess st)\<lparr>is_completed := b\<rparr>\<rparr>) obj =
     (collision_step pb st obj)\<lparr>sess := (sess (collision_step pb st obj))\<lparr>is_completed := b\<rparr>\<rparr>"
  "collision_step pb (st\<lparr>sess := (sess st)\<lparr>is_game_over := g\<rparr>\<rparr>) obj =
     (collision_step pb st obj)\<lparr>sess := (sess (collision_step pb st obj))\<lparr>is_game_over := g\<rparr>\<rparr>"
  by (simp_all add: collision_step_def resolve_solid_def split: prod.splits)

lemma collision_fold_flags:
  "foldl (collision_step pb) (st\<lparr>sess := (sess st)\<lparr>is_completed := b\<rparr>\<rparr>) os =
     (foldl (collision_step pb) st os)\<lparr>sess := (sess (foldl (collision_step pb) st os))\<lparr>is_completed := b\<rparr>\<rparr>"
  "foldl (collision_step pb) (st\<lparr>sess := (sess st)\<lparr>is_game_over := g\<rparr>\<rparr>) os =
     (foldl (collision_step pb) st os)\<lparr>sess := (sess (foldl (collision_step pb) st os))\<lparr>is_game_over := g\<rparr>\<rparr>"
  by (induction os arbitrary: st; simp add: collision_step_flags)+

lemma collision_pass_flags:
  "collision_pass os (st\<lparr>sess := (sess st)\<lparr>is_completed := b\<rparr>\<rparr>) =
     (collision_pass os st)\<lparr>sess := (sess (collision_pass os st))\<lparr>is_completed := b\<rparr>\<rparr>"
  "collision_pass os (st\<lparr>sess := (sess st)\<lparr>is_game_over := g\<rparr>\<rparr>) =
     (collision_pass os st)\<lparr>sess := (sess (collision_pass os st))\<lparr>is_game_over := g\<rparr>\<rparr>"
  by (simp_all add: collision_pass_def player_box_of_def collision_fold_flags)

lemma collect_step_flags:
  "collect_step (s\<lparr>is_completed := b\<rparr>) obj = (collect_step s obj)\<lparr>is_completed := b\<rparr>"
  "collect_step (s\<lparr>is_game_over := g\<rparr>) obj = (collect_step s obj)\<lparr>is_game_over := g\<rparr>"
  by (simp_all add: collect_step_def)

lemma collect_fold_flags:
  "foldl collect_step (s\<lparr>is_completed := b\<rparr>) q = (foldl collect_step s q)\<lparr>is_completed := b\<rparr>"
  "foldl collect_step (s\<lparr>is_game_over := g\<rparr>) q = (foldl collect_step s q)\<lparr>is_game_over := g\<rparr>"
  by (induction q arbitrary: s; simp add: collect_step_flags)+

lemma update_state_flags:
  "update_state (s\<lparr>is_completed := b\<rparr>) = (update_state s)\<lparr>is_completed := b\<rparr>"
  "update_state (s\<lparr>is_game_over := g\<rparr>) = (update_state s)\<lparr>is_game_over := g\<rparr>"
  by (simp_all add: update_state_def)

lemma before_fall_check_flags:
  "before_fall_check c (s\<lparr>is_completed := b\<rparr>) os k d =
     (before_fall_check c s os k d)\<lparr>sess := (sess (before_fall_check c s os k d))\<lparr>is_completed := b\<rparr>\<rparr>"
  "before_fall_check c (s\<lparr>is_game_over := g\<rparr>) os k d =
     (before_fall_check c s os k d)\<lparr>sess := (sess (before_fall_check c s os k d))\<lparr>is_game_over := g\<rparr>\<rparr>"
  by (simp_all add: before_fall_check_def derive_state_def handle_collectibles_def
      update_velocity_flags tentative_flags collision_pass_flags collect_fold_flags update_state_flags)

lemma fall_commit_flags:
  "commit (fall_check (st\<lparr>sess := (sess st)\<lparr>is_completed := b\<rparr>\<rparr>)) =
     (commit (fall_check st))\<lparr>is_completed := b\<rparr>"
  "commit (fall_check (st\<lparr>sess := (sess st)\<lparr>is_game_over := True\<rparr>\<rparr>)) =
     (commit (fall_check st))\<lparr>is_game_over := True\<rparr>"
  by (simp_all add: commit_def fall_check_def Let_def)

lemma before_fall_check_frame:
  "level (sess (before_fall_check c s os k d)) = level s"
  "lives_remaining (sess (before_fall_check c s os k d)) = lives_remaining s"
  "is_game_over (sess (before_fall_check c s os k d)) = is_game_over s"
  by (simp_all add: before_fall_check_def derive_state_def handle_collectibles_def
      update_state_frame collect_fold_frame collision_pass_frame tentative_sess update_velocity_frame)

lemma resolve_solid_cases:
  "resolve_solid pb obj st =
    (if fst (get_overlap pb (obj_box obj)) < snd (get_overlap pb (obj_box obj))
     then st\<lparr>new_x := (if 0 < player_velocity_x (sess st)
                        then dec_sub (x_position obj) 24
                        else dec_add (x_position obj) (obj_width obj)),
             sess := (sess st)\<lparr>player_velocity_x := 0\<rparr>\<rparr>
     else if 0 < player_velocity_y (sess st)
     then st\<lparr>new_y := dec_sub (y_position obj) 32,
             sess := (sess st)\<lparr>player_velocity_y := 0, is_on_ground := True\<rparr>\<rparr>
     else st\<lparr>new_y := dec_add (y_position obj) (obj_height obj),
             sess := (sess st)\<lparr>player_velocity_y := 0\<rparr>\<rparr>)"
  by (simp add: resolve_solid_def case_prod_beta)

section \<open>The queue of collectibles and its credit\<close>

lemma collision_step_queue:
  "collectible_objects (collision_step pb st obj) =
     (if intersects pb (obj_box obj) \<and> is_collectible obj
          \<and> obj_id obj \<notin> set (collected_objects (sess st))
      then collectible_objects st @ [obj] else collectible_objects st)"
  by (simp add: collision_step_def resolve_solid_cases)

lemma collision_step_collected:
  "collected_objects (sess (collision_step pb st obj)) = collected_objects (sess st)"
  using collision_step_sess [of pb st obj] by auto

lemma collision_fold_queue:
  "collectible_objects (foldl (collision_step pb) st os) =
     collectible_objects st @
     filter (\<lambda>obj. intersects pb (obj_box obj) \<and> is_collectible obj
                    \<and> obj_id obj \<notin> set (collected_objects (sess st))) os"
proof (induction os arbitrary: st)
  case Nil
  show ?case by simp
next
  case (Cons obj os)
  show ?case
    by (simp add: Cons.IH collision_step_queue collision_step_collected)
qed

lemma tick_queue:
  "collectible_objects (collision_pass os (tentative d (update_velocity c k d s))) =
     filter (\<lambda>obj. intersects (player_box_of (tentative d (update_velocity c k d s))) (obj_box obj)
                    \<and> is_collectible obj \<and> obj_id obj \<notin> set (collected_objects s)) os"
  by (simp add: collision_pass_def collision_fold_queue tentative_sess update_velocity_frame)
     (simp add: tentative_def)

lemma collect_fold_account:
  "\<exists>cr. set cr \<subseteq> set q
      \<and> collected_objects (foldl collect_step s q) = collected_objects s @ map obj_id cr
      \<and> distinct (map obj_id cr)
      \<and> set (map obj_id cr) \<inter> set (collected_objects s) = {}
      \<and> coins_collected (foldl collect_step s q) = coins_collected s + int (length cr)
      \<and> current_score (foldl collect_step s q) = current_score s + sum_list (map points_value cr)"
proof (induction q arbitrary: s)
  case Nil
  show ?case by (rule exI [of _ "[]"]) simp
next
  case (Cons obj q)
  obtain cr where cr: "set cr \<subseteq> set q"
    "collected_objects (foldl collect_step (collect_step s obj) q) =
       collected_objects (collect_step s obj) @ map obj_id cr"
    "distinct (map obj_id cr)"
    "set (map obj_id cr) \<inter> set (collected_objects (collect_step s obj)) = {}"
    "coins_collected (foldl collect_step (collect_step s obj) q) =
       coins_collected (collect_step s obj) + int (length cr)"
    "current_score (foldl collect_step (collect_step s obj) q) =
       current_score (collect_step s obj) + sum_list (map points_value cr)"
    using Cons.IH [of "collect_step s obj"] by blast
  show ?case
  proof (cases "obj_id obj \<in> set (collected_objects s)")
    case True
    then have "collect_step s obj = s" by (simp add: collect_step_def)
    with cr show ?thesis
      by (intro exI [of _ cr]) auto
  next
    case False
    then have st: "collected_objects (collect_step s obj) = collected_objects s @ [obj_id obj]"
      "coins_collected (collect_step s obj) = coins_collected s + 1"
      "current_score (collect_step s obj) = current_score s + points_value obj"
      by (simp_all add: collect_step_def)
    show ?thesis
      using cr False unfolding st
      by (intro exI [of _ "obj # cr"]) auto
  qed
qed

lemma collect_fold_all_collected:
  "obj_id ` set q \<subseteq> set (collected_objects (foldl collect_step s q))
   \<and> set (collected_objects s) \<subseteq> set (collected_objects (foldl collect_step s q))"
proof (induction q arbitrary: s)
  case Nil
  show ?case by simp
next
  case (Cons obj q)
  have "obj_id obj \<in> set (collected_objects (collect_step s obj))"
    "set (collected_objects s) \<subseteq> set (collected_objects (collect_step s obj))"
    by (auto simp add: collect_step_def)
  with Cons.IH [of "collect_step s obj"] show ?case
    by auto
qed

lemma tick_account:
  "\<exists>cr. set cr \<subseteq> set os \<and> (\<forall>obj\<in>set cr. is_collectible obj)
      \<and> collected_objects (update_player_physics c s os k d) = collected_objects s @ map obj_id cr
      \<and> distinct (map obj_id cr)
      \<and> set (map obj_id cr) \<inter> set (collected_objects s) = {}
      \<and> coins_collected (update_player_physics c s os k d) = coins_collected s + int (length cr)
      \<and> current_score (update_player_physics c s os k d) =
          current_score s + sum_list (map points_value cr)"
proof -
  let ?q = "collectible_objects (collision_pass os (tentative d (update_velocity c k d s)))"
  obtain cr where cr: "set cr \<subseteq> set ?q"
      "collected_objects (foldl collect_step s ?q) = collected_objects s @ map obj_id cr"
      "distinct (map obj_id cr)"
      "set (map obj_id cr) \<inter> set (collected_objects s) = {}"
      "coins_collected (foldl collect_step s ?q) = coins_collected s + int (length cr)"
      "current_score (foldl collect_step s ?q) = current_score s + sum_list (map points_value cr)"
    using collect_fold_account [of ?q s] by blast
  have "set ?q \<subseteq> {obj \<in> set os. is_collectible obj}"
    by (auto simp add: tick_queue)
  with cr(1) have "set cr \<subseteq> set os" "\<forall>obj\<in>set cr. is_collectible obj"
    by auto
  with cr(2-) tick_credit [of c s os k d] show ?thesis
    by (intro exI [of _ cr]) simp
qed

lemma run_account:
  "\<exists>cr. set cr \<subseteq> set os \<and> (\<forall>obj\<in>set cr. is_collectible obj)
      \<and> collected_objects (run_ticks c os inputs s) = collected_objects s @ map obj_id cr
      \<and> distinct (map obj_id cr)
      \<and> set (map obj_id cr) \<inter> set (collected_objects s) = {}
      \<and> coins_collected (run_ticks c os inputs s) = coins_collected s + int (length cr)
      \<and> current_score (run_ticks c os inputs s) =
          current_score s + sum_list (map points_value cr)"
proof (induction inputs arbitrary: s)
  case Nil
  show ?case by (rule exI [of _ "[]"]) simp
next
  case (Cons kd inputs)
  obtain k d where kd: "kd = (k, d)" by (cases kd)
  let ?s1 = "update_player_physics c s os k d"
  obtain cr1 where 1: "set cr1 \<subseteq> set os" "\<forall>obj\<in>set cr1. is_collectible obj"
      "collected_objects ?s1 = collected_objects s @ map obj_id cr1"
      "distinct (map obj_id cr1)"
      "set (map obj_id cr1) \<inter> set (collected_objects s) = {}"
      "coins_collected ?s1 = coins_collected s + int (length cr1)"
      "current_score ?s1 = current_score s + sum_list (map points_value cr1)"
    using tick_account [of os c s k d] by blast
  obtain cr2 where 2: "set cr2 \<subseteq> set os" "\<forall>obj\<in>set cr2. is_collectible obj"
      "collected_objects (run_ticks c os inputs ?s1) = collected_objects ?s1 @ map obj_id cr2"
      "distinct (map obj_id cr2)"
      "set (map obj_id cr2) \<inter> set (collected_objects ?s1) = {}"
      "coins_collected (run_ticks c os inputs ?s1) = coins_collected ?s1 + int (length cr2)"
      "current_score (run_ticks c os inputs ?s1) =
         current_score ?s1 + sum_list (map points_value cr2)"
    using Cons.IH [of ?s1] by blast
  show ?case
    unfolding kd using 1 2
    by (intro exI [of _ "cr1 @ cr2"]) auto
qed

section \<open>Coasting: ticks without input\<close>

lemma no_keys_get: "key_get no_keys n = False"
  by (simp add: key_get_def no_keys_def)

lemma update_velocity_no_keys:
  "player_velocity_x (update_velocity c no_keys d s) =
     coast c (is_on_ground s) (player_velocity_x s)"
  "is_on_ground (update_velocity c no_keys d s) = is_on_ground s"
  "is_on_ground s \<Longrightarrow>
     player_velocity_y (update_velocity c no_keys d s) = player_velocity_y s"
  by (simp_all add: update_velocity_def apply_gravity_def apply_jump_def apply_horizontal_def
      no_keys_get coast_def Let_def)

lemma collision_step_vx:
  "player_velocity_x (sess (collision_step pb st obj)) = 0
   \<or> player_velocity_x (sess (collision_step pb st obj)) = player_velocity_x (sess st)"
  by (simp add: collision_step_def resolve_solid_cases)

lemma collision_fold_vx:
  "player_velocity_x (sess (foldl (collision_step pb) st os)) = 0
   \<or> player_velocity_x (sess (foldl (collision_step pb) st os)) = player_velocity_x (sess st)"
proof (induction os arbitrary: st)
  case Nil
  show ?case by simp
next
  case (Cons obj os)
  from Cons.IH [of "collision_step pb st obj"] collision_step_vx [of pb st obj]
  show ?case by auto
qed

lemma collision_step_grounded:
  "(is_on_ground (sess st) \<longrightarrow> player_velocity_y (sess st) = 0) \<Longrightarrow>
   is_on_ground (sess (collision_step pb st obj)) \<longrightarrow>
     player_velocity_y (sess (collision_step pb st obj)) = 0"
  by (simp add: collision_step_def resolve_solid_cases)

lemma collision_fold_grounded:
  "(is_on_ground (sess st) \<longrightarrow> player_velocity_y (sess st) = 0) \<Longrightarrow>
   is_on_ground (sess (foldl (collision_step pb) st os)) \<longrightarrow>
     player_velocity_y (sess (foldl (collision_step pb) st os)) = 0"
proof (induction os arbitrary: st)
  case Nil
  then show ?case by simp
next
  case (Cons obj os)
  from Cons.IH [OF collision_step_grounded [OF Cons.prems]] show ?case by simp
qed

lemma collision_step_no_landing:
  "\<not> is_on_ground (sess st) \<and> player_velocity_y (sess st) \<le> 0 \<Longrightarrow>
   \<not> is_on_ground (sess (collision_step pb st obj))
   \<and> player_velocity_y (sess (collision_step pb st obj)) \<le> 0"
  by (simp add: collision_step_def resolve_solid_cases)

lemma collision_fold_no_landing:
  "\<not> is_on_ground (sess st) \<and> player_velocity_y (sess st) \<le> 0 \<Longrightarrow>
   \<not> is_on_ground (sess (foldl (collision_step pb) st os))
   \<and> player_velocity_y (sess (foldl (collision_step pb) st os)) \<le> 0"
proof (induction os arbitrary: st)
  case Nil
  then show ?case by simp
next
  case (Cons obj os)
  from Cons.IH [OF collision_step_no_landing [OF Cons.prems]] show ?case by simp
qed

lemma before_fall_check_motion:
  "player_velocity_x (sess (before_fall_check c s os k d)) =
     player_velocity_x (sess (collision_pass os (tentative d (update_velocity c k d s))))"
  "player_velocity_y (sess (before_fall_check c s os k d)) =
     player_velocity_y (sess (collision_pass os (tentative d (update_velocity c k d s))))"
  "is_on_ground (sess (before_fall_check c s os k d)) =
     is_on_ground (sess (collision_pass os (tentative d (update_velocity c k d s))))"
  by (simp_all add: before_fall_check_def derive_state_def handle_collectibles_def
      update_state_frame collect_fold_frame)

lemma tick_motion:
  "player_velocity_x (update_player_physics c s os k d) = 0
     \<or> player_velocity_x (update_player_physics c s os k d) =
        player_velocity_x (sess (before_fall_check c s os k d))"
  "player_velocity_y (update_player_physics c s os k d) = 0
     \<or> player_velocity_y (update_player_physics c s os k d) =
        player_velocity_y (sess (before_fall_check c s os k d))"
  "is_on_ground (update_player_physics c s os k d) =
     is_on_ground (sess (before_fall_check c s os k d))"
  by (simp_all add: update_player_physics_def commit_def fall_check_def Let_def)

lemma tick_coast:
  "player_velocity_x (update_player_physics c s os no_keys d) = 0
   \<or> player_velocity_x (update_player_physics c s os no_keys d) =
      coast c (is_on_ground s) (player_velocity_x s)"
proof -
  have "player_velocity_x (sess (tentative d (update_velocity c no_keys d s))) =
      coast c (is_on_ground s) (player_velocity_x s)"
    by (simp add: tentative_sess update_velocity_no_keys)
  with collision_fold_vx [of "player_box_of (tentative d (update_velocity c no_keys d s))"
      "tentative d (update_velocity c no_keys d s)" os]
  have "player_velocity_x (sess (before_fall_check c s os no_keys d)) = 0
     \<or> player_velocity_x (sess (before_fall_check c s os no_keys d)) =
        coast c (is_on_ground s) (player_velocity_x s)"
    by (simp add: before_fall_check_motion collision_pass_def)
  with tick_motion(1) [of c s os no_keys d] show ?thesis by auto
qed

lemma tick_grounded_at_rest:
  "is_on_ground (update_player_physics c s os k d) \<longrightarrow>
     player_velocity_y (update_player_physics c s os k d) = 0"
proof -
  have "is_on_ground (sess (tentative d (update_velocity c k d s))) \<longrightarrow>
      player_velocity_y (sess (tentative d (update_velocity c k d s))) = 0"
    by (simp add: tentative_sess)
  from collision_fold_grounded [OF this]
  have "is_on_ground (sess (before_fall_check c s os k d)) \<longrightarrow>
      player_velocity_y (sess (before_fall_check c s os k d)) = 0"
    by (simp add: before_fall_check_motion collision_pass_def)
  with tick_motion(2,3) [of c s os k d] show ?thesis by auto
qed

lemma tick_leaves_ground:
  assumes "is_on_ground s" "player_velocity_y s = 0"
  shows "\<not> is_on_ground (update_player_physics c s os no_keys d)"
proof -
  have "\<not> is_on_ground (sess (tentative d (update_velocity c no_keys d s)))
      \<and> player_velocity_y (sess (tentative d (update_velocity c no_keys d s))) \<le> 0"
    using assms by (simp add: tentative_sess update_velocity_no_keys)
  from collision_fold_no_landing [OF this]
  have "\<not> is_on_ground (sess (before_fall_check c s os no_keys d))"
    by (simp add: before_fall_check_motion collision_pass_def)
  with tick_motion(3) [of c s os no_keys d] show ?thesis by simp
qed

lemma coast_default:
  assumes "friction c = 8 / 10" "air_resistance c = 95 / 100"
  shows "coast c g 0 = 0"
    "coast c True 10 = 8"
    "coast c True 8 = 64 / 10"
    "coast c False 8 = 76 / 10"
    "coast c False (64 / 10) = 608 / 100"
    "coast c True (76 / 10) = 608 / 100"
    "coast c False (76 / 10) = 722 / 100"
  by (simp_all add: coast_def assms dec_eval)

lemma coast_cases:
  assumes "x' = 0 \<or> x' = coast c g x" and "x = a" and "coast c g a = b"
  shows "x' = 0 \<or> x' = b"
  using assms by blast

lemma sliding_run:
  "player_velocity_x (run_ticks default_config [main_ground]
      [(no_keys, default_delta_time)] sliding_session) = 8"
  "player_velocity_x (run_ticks default_config [main_ground]
      [(no_keys, default_delta_time), (no_keys, default_delta_time)] sliding_session) = 76 / 10"
  "player_velocity_x (run_ticks default_config [main_ground]
      [(no_keys, default_delta_time), (no_keys, default_delta_time),
       (no_keys, default_delta_time)] sliding_session) = 608 / 100"
  by (simp_all add: engine_eval dec_eval example_defs)

section \<open>Free fall from the spawn point onto the main ground\<close>

text \<open>
  One tick of a session in free fall above the main ground, without input and at the default
  frame time, as long as the player's box stays clear of the ground: gravity adds
  \<open>0.8 * 0.016666666666666666\<close> to the vertical velocity and the position moves by the
  velocity times \<open>0.16666666666666666\<close>, each rounded as Decimal rounds.
\<close>

lemma replicate_num: "replicate (numeral k) x = x # replicate (pred_numeral k) x"
  by (simp add: numeral_eq_Suc)

lemma fall_constants:
  "dec_mul 0 x = 0"
  "dec_abs 0 = 0"
  "dec_mul (gravity world_1_1) (dt default_delta_time) = 133333333333333328 / 10 ^ 19"
  "dec_add (player_spawn_x world_1_1) 0 = 100"
  "clamp_x world_1_1 100 = 100"
  "max_velocity_y default_config = 20"
  "dt10 default_delta_time = 16666666666666666 / 10 ^ 17"
  "level_height world_1_1 = 600"
  by (simp_all add: clamp_x_def dec_eval example_defs)

lemma falling_at_fields:
  "player_velocity_x (falling_at y vy) = 0" "\<not> is_on_ground (falling_at y vy)"
  "level (falling_at y vy) = world_1_1" "player_velocity_y (falling_at y vy) = vy"
  "player_x (falling_at y vy) = player_spawn_x world_1_1" "player_y (falling_at y vy) = y"
  by (simp_all add: falling_at_def start_new_session_def)

lemma fall_velocity:
  assumes "dec_add vy (133333333333333328 / 10 ^ 19) \<le> 20"
  shows "update_velocity default_config no_keys default_delta_time (falling_at y vy) =
      (falling_at y vy)\<lparr>player_velocity_x := 0,
         player_velocity_y := dec_add vy (133333333333333328 / 10 ^ 19)\<rparr>"
  using assms
  by (simp add: update_velocity_def apply_gravity_def apply_jump_def apply_horizontal_def
      no_keys_get falling_at_fields fall_constants Let_def)

lemma fall_tentative:
  "tentative default_delta_time
      ((falling_at y vy)\<lparr>player_velocity_x := 0, player_velocity_y := vy'\<rparr>) =
    \<lparr>sess = (falling_at y vy)\<lparr>player_velocity_x := 0, player_velocity_y := vy',
              is_on_ground := False\<rparr>,
     new_x = 100, new_y = dec_add y (dec_mul vy' (16666666666666666 / 10 ^ 17)),
     collectible_objects = []\<rparr>"
  by (simp add: tentative_def falling_at_fields fall_constants)

lemma fall_no_contact:
  assumes "dec_add ny 32 \<le> 550"
  shows "\<not> intersects \<lparr>box_x = 100, box_y = ny, box_width = 24, box_height = 32\<rparr>
      (obj_box main_ground)"
  using assms by (simp add: intersects_def obj_box_def main_ground_def)

lemma fall_rest_of_tick:
  assumes "0 \<le> vy'" and "ny \<le> 600"
    and "\<not> intersects \<lparr>box_x = 100, box_y = ny, box_width = 24, box_height = 32\<rparr>
      (obj_box main_ground)"
    and v: "update_velocity default_config no_keys default_delta_time (falling_at y vy) =
      (falling_at y vy)\<lparr>player_velocity_x := 0, player_velocity_y := vy'\<rparr>"
    and t: "tentative default_delta_time
        ((falling_at y vy)\<lparr>player_velocity_x := 0, player_velocity_y := vy'\<rparr>) =
      \<lparr>sess = (falling_at y vy)\<lparr>player_velocity_x := 0, player_velocity_y := vy',
                is_on_ground := False\<rparr>,
       new_x = 100, new_y = ny, collectible_objects = []\<rparr>"
  shows "update_player_physics default_config (falling_at y vy) [main_ground] no_keys
      default_delta_time = falling_at ny vy'"
proof -
  have "update_player_physics default_config (falling_at y vy) [main_ground] no_keys
      default_delta_time =
    (falling_at y vy)\<lparr>player_velocity_x := 0, player_velocity_y := vy',
       is_on_ground := False, player_state := FALLING, player_x := 100, player_y := ny\<rparr>"
    using assms(1,2,3)
    by (simp add: update_player_physics_def before_fall_check_def derive_state_def v t
        collision_pass_def collision_step_def player_box_of_def handle_collectibles_def
        update_state_def fall_check_def commit_def falling_at_fields fall_constants)
  also have "\<dots> = falling_at ny vy'"
    by (simp add: falling_at_def start_new_session_def world_1_1_def)
  finally show ?thesis .
qed

lemma fall_tick_airborne:
  assumes "dec_add vy (133333333333333328 / 10 ^ 19) \<le> 20"
    and "0 \<le> dec_add vy (133333333333333328 / 10 ^ 19)"
    and "dec_add (dec_add y (dec_mul (dec_add vy (133333333333333328 / 10 ^ 19))
            (16666666666666666 / 10 ^ 17))) 32 \<le> 550"
    and "dec_add y (dec_mul (dec_add vy (133333333333333328 / 10 ^ 19))
            (16666666666666666 / 10 ^ 17)) \<le> 600"
  shows "update_player_physics default_config (falling_at y vy) [main_ground] no_keys
      default_delta_time =
    falling_at (dec_add y (dec_mul (dec_add vy (133333333333333328 / 10 ^ 19))
                  (16666666666666666 / 10 ^ 17)))
      (dec_add vy (133333333333333328 / 10 ^ 19))"
  by (rule fall_rest_of_tick [OF assms(2) assms(4) fall_no_contact [OF assms(3)]
        fall_velocity [OF assms(1)] fall_tentative])

lemma fall_tick:
  "update_player_physics default_config (falling_at y vy) [main_ground] no_keys
      default_delta_time =
    (let vy' = dec_add vy (133333333333333328 / 10 ^ 19);
         ny = dec_add y (dec_mul vy' (16666666666666666 / 10 ^ 17))
     in if vy' \<le> 20 \<and> 0 \<le> vy' \<and> dec_add ny 32 \<le> 550 \<and> ny \<le> 600
        then falling_at ny vy'
        else update_player_physics default_config (falling_at y vy) [main_ground] no_keys
               default_delta_time)"
  using fall_tick_airborne [of vy y] by (simp add: Let_def)

text \<open>The fall in stretches of about forty ticks, each evaluated tick by tick.\<close>

lemma fall_1_41:
  "run_ticks default_config [main_ground] (replicate 40 (no_keys, default_delta_time))
     (falling_at (4000022222222222222220444444 / 10 ^ 25) (133333333333333328 / 10 ^ 19)) =
   falling_at (4019133333333333331802666666 / 10 ^ 25) (5466666666666666448 / 10 ^ 19)"
  by (simp add: replicate_num fall_tick dec_eval cong: let_weak_cong)

lemma fall_41_81:
  "run_ticks default_config [main_ground] (replicate 40 (no_keys, default_delta_time))
     (falling_at (4019133333333333331802666666 / 10 ^ 25) (5466666666666666448 / 10 ^ 19)) =
   falling_at (4073799999999999994096000000 / 10 ^ 25) (10799999999999999568 / 10 ^ 19)"
  by (simp add: replicate_num fall_tick dec_eval cong: let_weak_cong)

lemma fall_81_120:
  "run_ticks default_config [main_ground] (replicate 39 (no_keys, default_delta_time))
     (falling_at (4073799999999999994096000000 / 10 ^ 25) (10799999999999999568 / 10 ^ 19)) =
   falling_at (4161333333333333320426666666 / 10 ^ 25) (15999999999999999360 / 10 ^ 19)"
  by (simp add: replicate_num fall_tick dec_eval cong: let_weak_cong)

lemma fall_120_161:
  "run_ticks default_config [main_ground] (replicate 41 (no_keys, default_delta_time))
     (falling_at (4161333333333333320426666666 / 10 ^ 25) (15999999999999999360 / 10 ^ 19)) =
   falling_at (4289799999999999976816000000 / 10 ^ 25) (21466666666666665808 / 10 ^ 19)"
  by (simp add: replicate_num fall_tick dec_eval cong: let_weak_cong)

lemma fall_161_202:
  "run_ticks default_config [main_ground] (replicate 41 (no_keys, default_delta_time))
     (falling_at (4289799999999999976816000000 / 10 ^ 25) (21466666666666665808 / 10 ^ 19)) =
   falling_at (4455622222222222185772444444 / 10 ^ 25) (26933333333333332256 / 10 ^ 19)"
  by (simp add: replicate_num fall_tick dec_eval cong: let_weak_cong)

lemma fall_202_243:
  "run_ticks default_config [main_ground] (replicate 41 (no_keys, default_delta_time))
     (falling_at (4455622222222222185772444444 / 10 ^ 25) (26933333333333332256 / 10 ^ 19)) =
   falling_at (4658799999999999947296000000 / 10 ^ 25) (32399999999999998704 / 10 ^ 19)"
  by (simp add: replicate_num fall_tick dec_eval cong: let_weak_cong)

lemma fall_243_284:
  "run_ticks default_config [main_ground] (replicate 41 (no_keys, default_delta_time))
     (falling_at (4658799999999999947296000000 / 10 ^ 25) (32399999999999998704 / 10 ^ 19)) =
   falling_at (4899333333333333261386666666 / 10 ^ 25) (37866666666666665152 / 10 ^ 19)"
  by (simp add: replicate_num fall_tick dec_eval cong: let_weak_cong)

lemma fall_284_325:
  "run_ticks default_config [main_ground] (replicate 41 (no_keys, default_delta_time))
     (falling_at (4899333333333333261386666666 / 10 ^ 25) (37866666666666665152 / 10 ^ 19)) =
   falling_at (5177222222222222128044444444 / 10 ^ 25) (43333333333333331600 / 10 ^ 19)"
  by (simp add: replicate_num fall_tick dec_eval cong: let_weak_cong)

lemma run_ticks_append:
  "run_ticks c os (xs @ ys) s = run_ticks c os ys (run_ticks c os xs s)"
proof (induction xs arbitrary: s)
  case Nil
  show ?case by simp
next
  case (Cons kd xs)
  then show ?case by (cases kd) simp
qed

lemma fall_first_tick:
  "run_ticks default_config [main_ground] (replicate 1 (no_keys, default_delta_time))
     (start_new_session 1 1 world_1_1) =
   falling_at (4000022222222222222220444444 / 10 ^ 25) (133333333333333328 / 10 ^ 19)"
  by (simp add: engine_eval dec_eval example_defs falling_at_def cong: let_weak_cong)

lemma fall_landing_tick:
  "run_ticks default_config [main_ground] (replicate 1 (no_keys, default_delta_time))
     (falling_at (5177222222222222128044444444 / 10 ^ 25) (43333333333333331600 / 10 ^ 19)) =
   (start_new_session 1 1 world_1_1)\<lparr>player_y := 518, is_on_ground := True\<rparr>"
  by (simp add: engine_eval dec_eval example_defs falling_at_def cong: let_weak_cong)

lemma split_120:
  "replicate 120 x = replicate 1 x @ replicate 40 x @ replicate 40 x @ replicate 39 x"
proof -
  have "replicate 120 x = replicate (1 + (40 + (40 + 39))) x" by simp
  also have "\<dots> = replicate 1 x @ replicate 40 x @ replicate 40 x @ replicate 39 x"
    by (simp only: replicate_add)
  finally show ?thesis .
qed

lemma split_326:
  "replicate 326 x = replicate 120 x @ replicate 41 x @ replicate 41 x @ replicate 41 x
     @ replicate 41 x @ replicate 41 x @ replicate 1 x"
proof -
  have "replicate 326 x = replicate (120 + (41 + (41 + (41 + (41 + (41 + 1)))))) x" by simp
  also have "\<dots> = replicate 120 x @ replicate 41 x @ replicate 41 x @ replicate 41 x
     @ replicate 41 x @ replicate 41 x @ replicate 1 x"
    by (simp only: replicate_add)
  finally show ?thesis .
qed

lemma fall_120:
  "run_ticks default_config [main_ground] (replicate 120 (no_keys, default_delta_time))
     (start_new_session 1 1 world_1_1) =
   falling_at (4161333333333333320426666666 / 10 ^ 25) (15999999999999999360 / 10 ^ 19)"
  by (simp only: split_120 run_ticks_append fall_first_tick fall_1_41 fall_41_81 fall_81_120)

lemma fall_326:
  "run_ticks default_config [main_ground] (replicate 326 (no_keys, default_delta_time))
     (start_new_session 1 1 world_1_1) =
   (start_new_session 1 1 world_1_1)\<lparr>player_y := 518, is_on_ground := True\<rparr>"
  by (simp only: split_326 run_ticks_append fall_120 fall_120_161 fall_161_202 fall_202_243
      fall_243_284 fall_284_325 fall_landing_tick)

section \<open>Collision boxes\<close>

text \<open>
  Claim C9. \<^verbatim>\<open>intersects\<close> is the strict test on both axes, with the sums computed in
  Decimal arithmetic as the code computes them: it holds exactly when
  \<open>a.x < b.x + b.width\<close>, \<open>a.x + a.width > b.x\<close>, \<open>a.y < b.y + b.height\<close> and
  \<open>a.y + a.height > b.y\<close>. Two boxes that share only an edge, \<open>a.x + a.width = b.x\<close>,
  do not intersect. Whenever the four sums have at most 28 significant digits, the sums
  are the exact ones.
\<close>

theorem intersects_half_open:
  "(intersects a b \<longleftrightarrow>
      box_x a < dec_add (box_x b) (box_width b) \<and> dec_add (box_x a) (box_width a) > box_x b
      \<and> box_y a < dec_add (box_y b) (box_height b) \<and> dec_add (box_y a) (box_height a) > box_y b)
   \<and> (dec_add (box_x a) (box_width a) = box_x b \<longrightarrow> \<not> intersects a b)
   \<and> (\<bar>m1\<bar> < 10 ^ 28 \<and> box_x a + box_width a = of_int m1 * pow10 k1
      \<and> \<bar>m2\<bar> < 10 ^ 28 \<and> box_x b + box_width b = of_int m2 * pow10 k2
      \<and> \<bar>m3\<bar> < 10 ^ 28 \<and> box_y a + box_height a = of_int m3 * pow10 k3
      \<and> \<bar>m4\<bar> < 10 ^ 28 \<and> box_y b + box_height b = of_int m4 * pow10 k4
      \<longrightarrow> (intersects a b \<longleftrightarrow>
             box_x a < box_x b + box_width b \<and> box_x a + box_width a > box_x b
             \<and> box_y a < box_y b + box_height b \<and> box_y a + box_height a > box_y b)
          \<and> (box_x a + box_width a = box_x b \<longrightarrow> \<not> intersects a b))"
proof -
  have exact: "intersects a b \<longleftrightarrow>
             box_x a < box_x b + box_width b \<and> box_x a + box_width a > box_x b
             \<and> box_y a < box_y b + box_height b \<and> box_y a + box_height a > box_y b"
    if "\<bar>m1\<bar> < 10 ^ 28" "box_x a + box_width a = of_int m1 * pow10 k1"
      "\<bar>m2\<bar> < 10 ^ 28" "box_x b + box_width b = of_int m2 * pow10 k2"
      "\<bar>m3\<bar> < 10 ^ 28" "box_y a + box_height a = of_int m3 * pow10 k3"
      "\<bar>m4\<bar> < 10 ^ 28" "box_y b + box_height b = of_int m4 * pow10 k4"
    by (simp only: intersects_def dec_add_exact [OF that(1,2)] dec_add_exact [OF that(3,4)]
        dec_add_exact [OF that(5,6)] dec_add_exact [OF that(7,8)])
  show ?thesis
    using exact by (auto simp add: intersects_def)
qed

theorem intersects_half_open_witness:
  "\<bar>10\<bar> < (10::int) ^ 28
   \<and> box_x \<lparr>box_x = 0, box_y = 0, box_width = 10, box_height = 10\<rparr>
       + box_width \<lparr>box_x = 0, box_y = 0, box_width = 10, box_height = 10\<rparr>
       = of_int 10 * pow10 0
   \<and> \<bar>20\<bar> < (10::int) ^ 28
   \<and> box_x \<lparr>box_x = 10, box_y = 0, box_width = 10, box_height = 10\<rparr>
       + box_width \<lparr>box_x = 10, box_y = 0, box_width = 10, box_height = 10\<rparr>
       = of_int 20 * pow10 0
   \<and> box_x \<lparr>box_x = 0, box_y = 0, box_width = 10, box_height = 10\<rparr>
       + box_width \<lparr>box_x = 0, box_y = 0, box_width = 10, box_height = 10\<rparr>
       = box_x \<lparr>box_x = 10, box_y = 0, box_width = 10, box_height = 10\<rparr>
   \<and> dec_add (box_x \<lparr>box_x = 0, box_y = 0, box_width = 10, box_height = 10\<rparr>)
           (box_width \<lparr>box_x = 0, box_y = 0, box_width = 10, box_height = 10\<rparr>)
     = box_x \<lparr>box_x = 10, box_y = 0, box_width = 10, box_height = 10\<rparr>
   \<and> \<not> intersects \<lparr>box_x = 0, box_y = 0, box_width = 10, box_height = 10\<rparr>
                    \<lparr>box_x = 10, box_y = 0, box_width = 10, box_height = 10\<rparr>"
proof -
  have p: "pow10 0 = 1" by (simp add: pow10_def)
  have d: "dec_add 0 10 = 10" by (simp add: dec_eval)
  show ?thesis
    using intersects_half_open [of "\<lparr>box_x = 0, box_y = 0, box_width = 10, box_height = 10\<rparr>"
      "\<lparr>box_x = 10, box_y = 0, box_width = 10, box_height = 10\<rparr>" 10 0 20 0 10 0 10 0]
    by (simp add: p d)
qed

section \<open>Invariants and frame properties of a tick\<close>

text \<open>
  Claim C8. The terminal flags are latches under the engine: a session that is game over
  before a tick is game over after it, and \<^verbatim>\<open>is_completed\<close> is returned as it was given,
  for every configuration, object list, key state and frame time.
\<close>

theorem terminal_flags_latch:
  "(is_game_over s \<longrightarrow> is_game_over (update_player_physics c s os k d))
   \<and> is_completed (update_player_physics c s os k d) = is_completed s"
  by (simp add: frame_simps)

theorem terminal_flags_latch_witness:
  "is_game_over ((start_new_session 1 1 world_1_1)\<lparr>is_game_over := True\<rparr>)
   \<and> is_game_over (update_player_physics default_config
         ((start_new_session 1 1 world_1_1)\<lparr>is_game_over := True\<rparr>)
         [main_ground] no_keys default_delta_time)
   \<and> \<not> is_completed (update_player_physics default_config
         ((start_new_session 1 1 world_1_1)\<lparr>is_game_over := True\<rparr>)
         [main_ground] no_keys default_delta_time)"
  using terminal_flags_latch [of "(start_new_session 1 1 world_1_1)\<lparr>is_game_over := True\<rparr>"
      default_config "[main_ground]" no_keys default_delta_time]
  by (simp add: start_new_session_def)

text \<open>
  Claim C10. A tick never changes \<^verbatim>\<open>time_remaining\<close>. The coin count and the score it
  returns are those of the credit loop alone, run on the given session over the
  collectibles queued by the collision pass: nothing else in the tick touches them.
\<close>

theorem time_remaining_frame:
  "time_remaining (update_player_physics c s os k d) = time_remaining s
   \<and> coins_collected (update_player_physics c s os k d) =
       coins_collected (foldl collect_step s
         (collectible_objects (collision_pass os (tentative d (update_velocity c k d s)))))
   \<and> current_score (update_player_physics c s os k d) =
       current_score (foldl collect_step s
         (collectible_objects (collision_pass os (tentative d (update_velocity c k d s)))))"
  using tick_credit [of c s os k d] by (simp add: frame_simps)

text \<open>
  Claim C4. On a level at least as wide as the player (24), the returned \<^verbatim>\<open>player_x\<close>
  lies between 0 and \<^verbatim>\<open>level.width - Decimal("24")\<close>, whatever the velocity, the input,
  the objects and the frame time; for every width below \<open>10^28\<close> that bound is the exact
  difference \<open>level.width - 24\<close>.
\<close>

theorem player_x_clamped:
  assumes "24 \<le> level_width (level s)"
  shows "0 \<le> player_x (update_player_physics c s os k d)
     \<and> player_x (update_player_physics c s os k d) \<le> dec_sub (of_int (level_width (level s))) 24
     \<and> (level_width (level s) < 10 ^ 28 \<longrightarrow>
          player_x (update_player_physics c s os k d) \<le> of_int (level_width (level s)) - 24)"
proof -
  let ?w = "level_width (level s)"
  let ?b = "dec_sub (of_int ?w) 24"
  have b0: "0 \<le> ?b"
    using assms by (simp add: dec_sub_def ctx_round_nonneg)
  have px: "\<exists>x. player_x (update_player_physics c s os k d) = max 0 (min x ?b)"
    by (auto simp: frame_simps clamp_x_def)
  have exact: "?b = of_int ?w - 24" if "?w < 10 ^ 28"
  proof -
    have "\<bar>?w - 24\<bar> < 10 ^ 28" using assms that by simp
    then have "ctx_round (of_int (?w - 24)) = of_int (?w - 24)" by (rule ctx_round_of_int)
    then show ?thesis by (simp add: dec_sub_def)
  qed
  from px obtain x where x: "player_x (update_player_physics c s os k d) = max 0 (min x ?b)" ..
  show ?thesis
    using b0 exact by (auto simp: x)
qed

theorem player_x_clamped_witness:
  "24 \<le> level_width (level (start_new_session 1 1 world_1_1))
   \<and> 0 \<le> player_x (update_player_physics default_config (start_new_session 1 1 world_1_1)
               [main_ground] no_keys default_delta_time)
   \<and> player_x (update_player_physics default_config (start_new_session 1 1 world_1_1)
               [main_ground] no_keys default_delta_time) \<le> 2376"
  using player_x_clamped [of "start_new_session 1 1 world_1_1" default_config "[main_ground]"
      no_keys default_delta_time]
  by (simp add: start_new_session_def world_1_1_def)

text \<open>
  Claim C2. When the \<^verbatim>\<open>new_y\<close> of the loop's final state exceeds \<^verbatim>\<open>level.height\<close>, the tick
  decrements \<^verbatim>\<open>lives_remaining\<close>. If the decremented value is at most 0 it sets
  \<^verbatim>\<open>is_game_over\<close> and keeps the position and the velocity as computed: there is no
  respawn. Otherwise it resets \<^verbatim>\<open>new_x, new_y\<close> to the level's spawn point and zeroes both
  velocity components; the committed \<^verbatim>\<open>player_x\<close> is that spawn x after the horizontal
  clamp, which every tick applies.
\<close>

theorem fall_out_of_world:
  assumes "of_int (level_height (level s)) < new_y (before_fall_check c s os k d)"
  shows "lives_remaining (update_player_physics c s os k d) = lives_remaining s - 1
    \<and> (lives_remaining s - 1 \<le> 0 \<longrightarrow>
          is_game_over (update_player_physics c s os k d)
        \<and> new_x (fall_check (before_fall_check c s os k d)) = new_x (before_fall_check c s os k d)
        \<and> new_y (fall_check (before_fall_check c s os k d)) = new_y (before_fall_check c s os k d)
        \<and> player_x (update_player_physics c s os k d) =
            clamp_x (level s) (new_x (before_fall_check c s os k d))
        \<and> player_y (update_player_physics c s os k d) = new_y (before_fall_check c s os k d)
        \<and> player_velocity_x (update_player_physics c s os k d) =
            player_velocity_x (sess (before_fall_check c s os k d))
        \<and> player_velocity_y (update_player_physics c s os k d) =
            player_velocity_y (sess (before_fall_check c s os k d)))
    \<and> (0 < lives_remaining s - 1 \<longrightarrow>
          is_game_over (update_player_physics c s os k d) = is_game_over s
        \<and> new_x (fall_check (before_fall_check c s os k d)) = player_spawn_x (level s)
        \<and> new_y (fall_check (before_fall_check c s os k d)) = player_spawn_y (level s)
        \<and> player_x (update_player_physics c s os k d) = clamp_x (level s) (player_spawn_x (level s))
        \<and> player_y (update_player_physics c s os k d) = player_spawn_y (level s)
        \<and> player_velocity_x (update_player_physics c s os k d) = 0
        \<and> player_velocity_y (update_player_physics c s os k d) = 0)"
proof -
  define bf where "bf = before_fall_check c s os k d"
  have fr: "level (sess bf) = level s" "lives_remaining (sess bf) = lives_remaining s"
    "is_game_over (sess bf) = is_game_over s"
    by (simp_all add: bf_def before_fall_check_frame)
  have fell: "of_int (level_height (level (sess bf))) < new_y bf"
    using assms by (simp add: bf_def before_fall_check_frame)
  have over: "fall_check bf =
      bf\<lparr>sess := (sess bf)\<lparr>lives_remaining := lives_remaining s - 1, is_game_over := True\<rparr>\<rparr>"
    if "lives_remaining s - 1 \<le> 0"
    using fell that by (simp add: fall_check_def Let_def fr)
  have respawn: "fall_check bf =
      bf\<lparr>new_x := player_spawn_x (level s), new_y := player_spawn_y (level s),
         sess := (sess bf)\<lparr>lives_remaining := lives_remaining s - 1,
                            player_velocity_x := 0, player_velocity_y := 0\<rparr>\<rparr>"
    if "0 < lives_remaining s - 1"
    using fell that by (simp add: fall_check_def Let_def fr)
  have upp: "update_player_physics c s os k d = commit (fall_check bf)"
    by (simp add: update_player_physics_def bf_def)
  have lives: "lives_remaining (commit (fall_check bf)) = lives_remaining s - 1"
    using over respawn by (cases "lives_remaining s - 1 \<le> 0") (simp_all add: commit_def)
  have c1: ?thesis if "lives_remaining s - 1 \<le> 0"
    unfolding upp bf_def [symmetric] using that lives
    by (simp add: over commit_def fr)
  have c2: ?thesis if "0 < lives_remaining s - 1"
    unfolding upp bf_def [symmetric] using that lives
    by (simp add: respawn commit_def fr)
  show ?thesis
    using c1 c2 by linarith
qed

theorem fall_out_of_world_witness:
  "of_int (level_height (level (falling_session 1)))
     < new_y (before_fall_check default_config (falling_session 1) [main_ground] no_keys
               default_delta_time)
   \<and> lives_remaining (update_player_physics default_config (falling_session 1) [main_ground]
        no_keys default_delta_time) = 0
   \<and> is_game_over (update_player_physics default_config (falling_session 1) [main_ground]
        no_keys default_delta_time)
   \<and> player_y (update_player_physics default_config (falling_session 1) [main_ground]
        no_keys default_delta_time) = 6023333333333333332 / 10 ^ 16
   \<and> of_int (level_height (level (falling_session 3)))
     < new_y (before_fall_check default_config (falling_session 3) [main_ground] no_keys
               default_delta_time)
   \<and> lives_remaining (update_player_physics default_config (falling_session 3) [main_ground]
        no_keys default_delta_time) = 2
   \<and> \<not> is_game_over (update_player_physics default_config (falling_session 3) [main_ground]
        no_keys default_delta_time)
   \<and> player_x (update_player_physics default_config (falling_session 3) [main_ground]
        no_keys default_delta_time) = 100
   \<and> player_y (update_player_physics default_config (falling_session 3) [main_ground]
        no_keys default_delta_time) = 400"
proof -
  have ny: "new_y (before_fall_check default_config (falling_session n) [main_ground] no_keys
               default_delta_time) = 6023333333333333332 / 10 ^ 16" for n
    by (simp add: engine_eval dec_eval example_defs)
  have lvl: "level (falling_session n) = world_1_1"
    and lives: "lives_remaining (falling_session n) = n"
    and go: "\<not> is_game_over (falling_session n)" for n
    by (simp_all add: falling_session_def start_new_session_def)
  have w: "level_height world_1_1 = 600" "player_spawn_x world_1_1 = 100"
    "player_spawn_y world_1_1 = 400"
    by (simp_all add: world_1_1_def)
  have h: "of_int (level_height (level (falling_session n)))
     < new_y (before_fall_check default_config (falling_session n) [main_ground] no_keys
               default_delta_time)" for n
    by (simp add: ny lvl w)
  have cl: "clamp_x world_1_1 100 = 100"
    by (simp add: clamp_x_def dec_eval world_1_1_def)
  show ?thesis
    using fall_out_of_world [OF h [of 1]] fall_out_of_world [OF h [of 3]]
    by (simp add: ny lvl lives go w cl)
qed

section \<open>The collision pass\<close>

text \<open>
  Claim C1, as stated, at a block that is solid and also a collectible not yet collected:
  the player's box intersects it from above with the smaller overlap on the vertical axis
  and a positive vertical velocity, yet the tick does not land the player. The position
  and velocity stay as computed, \<^verbatim>\<open>is_on_ground\<close> stays false, and the block is credited
  as a coin.
\<close>

theorem solid_collectible_counterexample:
  "is_solid solid_coin
   \<and> intersects (player_box_of (tentative default_delta_time
         (update_velocity default_config no_keys default_delta_time landing_session)))
       (obj_box solid_coin)
   \<and> \<not> fst (get_overlap (player_box_of (tentative default_delta_time
           (update_velocity default_config no_keys default_delta_time landing_session)))
         (obj_box solid_coin))
       < snd (get_overlap (player_box_of (tentative default_delta_time
           (update_velocity default_config no_keys default_delta_time landing_session)))
         (obj_box solid_coin))
   \<and> 0 < player_velocity_y (update_velocity default_config no_keys default_delta_time
           landing_session)
   \<and> player_y (update_player_physics default_config landing_session [solid_coin] no_keys
         default_delta_time) = 5183355555555555555420444444 / 10 ^ 25
   \<and> player_y (update_player_physics default_config landing_session [solid_coin] no_keys
         default_delta_time) \<noteq> dec_sub (y_position solid_coin) 32
   \<and> player_velocity_y (update_player_physics default_config landing_session [solid_coin]
         no_keys default_delta_time) = 20133333333333333328 / 10 ^ 19
   \<and> \<not> is_on_ground (update_player_physics default_config landing_session [solid_coin]
         no_keys default_delta_time)
   \<and> coins_collected (update_player_physics default_config landing_session [solid_coin]
         no_keys default_delta_time) = 1"
proof -
  let ?st = "tentative default_delta_time
         (update_velocity default_config no_keys default_delta_time landing_session)"
  have i: "intersects (player_box_of ?st) (obj_box solid_coin)"
    by (simp add: engine_eval dec_eval example_defs)
  have ov: "get_overlap (player_box_of ?st) (obj_box solid_coin) =
      (24, 3355555555555555420444444 / 10 ^ 25)"
    by (simp add: engine_eval dec_eval example_defs)
  have v: "player_velocity_y (update_velocity default_config no_keys default_delta_time
           landing_session) = 20133333333333333328 / 10 ^ 19"
    by (simp add: engine_eval dec_eval example_defs)
  have top: "dec_sub (y_position solid_coin) 32 = 518"
    by (simp add: dec_eval solid_coin_def)
  have run: "update_player_physics default_config landing_session [solid_coin] no_keys
        default_delta_time =
      landing_session\<lparr>player_velocity_y := 20133333333333333328 / 10 ^ 19,
        player_y := 5183355555555555555420444444 / 10 ^ 25, player_state := FALLING,
        collected_objects := [Some 9], coins_collected := 1, current_score := 100\<rparr>"
    by (simp add: engine_eval dec_eval example_defs)
  have g: "\<not> is_on_ground landing_session"
    by (simp add: landing_session_def start_new_session_def)
  have s: "is_solid solid_coin"
    by (simp add: solid_coin_def)
  show ?thesis
    by (simp add: i ov v top run g s)
qed

text \<open>
  Claim C1, amended. A solid object whose box intersects the player's tentative box, and
  which is not a collectible still to be collected, is resolved on the axis of the smaller
  overlap, on the state the loop has reached when it comes to the object. If
  \<open>overlap_x < overlap_y\<close>, \<^verbatim>\<open>new_x\<close> becomes the object's left edge minus 24 when the
  horizontal velocity is positive, else its right edge, and the horizontal velocity
  becomes 0. Otherwise, when the vertical velocity is positive, \<^verbatim>\<open>new_y\<close> becomes the
  object's top minus 32, the vertical velocity 0 and \<^verbatim>\<open>is_on_ground\<close> true; else \<^verbatim>\<open>new_y\<close>
  becomes the object's bottom edge and the vertical velocity 0.
\<close>

theorem solid_collision_resolution:
  assumes "is_solid obj"
    and "intersects (player_box_of st) (obj_box obj)"
    and "\<not> (is_collectible obj \<and> obj_id obj \<notin> set (collected_objects (sess st)))"
  shows "collision_pass (os @ [obj]) st =
    (if fst (get_overlap (player_box_of st) (obj_box obj))
          < snd (get_overlap (player_box_of st) (obj_box obj))
     then (collision_pass os st)
            \<lparr>new_x := (if 0 < player_velocity_x (sess (collision_pass os st))
                        then dec_sub (x_position obj) 24
                        else dec_add (x_position obj) (obj_width obj)),
             sess := (sess (collision_pass os st))\<lparr>player_velocity_x := 0\<rparr>\<rparr>
     else if 0 < player_velocity_y (sess (collision_pass os st))
     then (collision_pass os st)
            \<lparr>new_y := dec_sub (y_position obj) 32,
             sess := (sess (collision_pass os st))
                       \<lparr>player_velocity_y := 0, is_on_ground := True\<rparr>\<rparr>
     else (collision_pass os st)
            \<lparr>new_y := dec_add (y_position obj) (obj_height obj),
             sess := (sess (collision_pass os st))\<lparr>player_velocity_y := 0\<rparr>\<rparr>)"
proof -
  have "collected_objects (sess (collision_pass os st)) = collected_objects (sess st)"
    by (rule collision_pass_frame)
  then have c: "\<not> (is_collectible obj
      \<and> obj_id obj \<notin> set (collected_objects (sess (foldl (collision_step (player_box_of st)) st os))))"
    using assms(3) by (simp add: collision_pass_def)
  have "collision_pass (os @ [obj]) st =
      resolve_solid (player_box_of st) obj (collision_pass os st)"
    using assms(1,2) c by (auto simp add: collision_pass_def collision_step_def)
  then show ?thesis
    by (simp only: resolve_solid_cases)
qed

theorem solid_collision_resolution_witness:
  "is_solid main_ground
   \<and> intersects (player_box_of sunk_state) (obj_box main_ground)
   \<and> \<not> (is_collectible main_ground
          \<and> obj_id main_ground \<notin> set (collected_objects (sess sunk_state)))
   \<and> new_y (collision_pass ([] @ [main_ground]) sunk_state) = 518
   \<and> new_x (collision_pass ([] @ [main_ground]) sunk_state) = 100
   \<and> player_velocity_y (sess (collision_pass ([] @ [main_ground]) sunk_state)) = 0
   \<and> is_on_ground (sess (collision_pass ([] @ [main_ground]) sunk_state))"
proof -
  have h1: "is_solid main_ground"
    by (simp add: main_ground_def)
  have h2: "intersects (player_box_of sunk_state) (obj_box main_ground)"
    by (simp add: intersects_def player_box_of_def obj_box_def dec_eval example_defs)
  have h3: "\<not> (is_collectible main_ground
          \<and> obj_id main_ground \<notin> set (collected_objects (sess sunk_state)))"
    by (simp add: main_ground_def)
  have ov: "get_overlap (player_box_of sunk_state) (obj_box main_ground) = (24, 1)"
    by (simp add: get_overlap_def player_box_of_def obj_box_def dec_eval example_defs)
  have fields: "new_x sunk_state = 100" "player_velocity_y (sess sunk_state) = 2"
    by (simp_all add: sunk_state_def)
  have nil: "collision_pass [] sunk_state = sunk_state"
    by (simp add: collision_pass_def)
  have top: "dec_sub (y_position main_ground) 32 = 518"
    by (simp add: dec_eval main_ground_def)
  show ?thesis
    using solid_collision_resolution [OF h1 h2 h3, of "[]"] h1 h2 h3
    by (simp add: ov nil top fields)
qed

section \<open>Terminal sessions\<close>

text \<open>
  Claim C5, as stated, at a session that is game over while in the air above the ground of
  the default level: the tick applies gravity and moves the player, so the returned
  session differs from the one given.
\<close>

theorem terminal_noop_counterexample:
  "is_game_over ((start_new_session 1 1 world_1_1)\<lparr>is_game_over := True\<rparr>)
   \<and> update_player_physics default_config ((start_new_session 1 1 world_1_1)\<lparr>is_game_over := True\<rparr>)
        [main_ground] no_keys default_delta_time
      \<noteq> (start_new_session 1 1 world_1_1)\<lparr>is_game_over := True\<rparr>
   \<and> player_velocity_y (update_player_physics default_config
        ((start_new_session 1 1 world_1_1)\<lparr>is_game_over := True\<rparr>)
        [main_ground] no_keys default_delta_time) = 133333333333333328 / 10 ^ 19
   \<and> player_y (update_player_physics default_config
        ((start_new_session 1 1 world_1_1)\<lparr>is_game_over := True\<rparr>)
        [main_ground] no_keys default_delta_time) = 4000022222222222222220444444 / 10 ^ 25"
proof -
  let ?s = "(start_new_session 1 1 world_1_1)\<lparr>is_game_over := True\<rparr>"
  have run: "update_player_physics default_config ?s [main_ground] no_keys default_delta_time =
      ?s\<lparr>player_velocity_y := 133333333333333328 / 10 ^ 19,
         player_y := 4000022222222222222220444444 / 10 ^ 25, player_state := FALLING\<rparr>"
    by (simp add: engine_eval dec_eval example_defs)
  have "player_velocity_y (?s\<lparr>player_velocity_y := 133333333333333328 / 10 ^ 19,
         player_y := 4000022222222222222220444444 / 10 ^ 25, player_state := FALLING\<rparr>)
        \<noteq> player_velocity_y ?s"
    by (simp add: start_new_session_def)
  then have "?s\<lparr>player_velocity_y := 133333333333333328 / 10 ^ 19,
         player_y := 4000022222222222222220444444 / 10 ^ 25, player_state := FALLING\<rparr> \<noteq> ?s"
    by metis
  then show ?thesis
    by (simp add: run)
qed

text \<open>
  Claim C5, amended. The engine has no gate on the terminal flags: a tick on a session
  whose \<^verbatim>\<open>is_completed\<close> or \<^verbatim>\<open>is_game_over\<close> flag is set returns what the tick on the same
  session without the flag returns, with the flag set. Position, velocity, lives and
  score are advanced as for any other session; only the flags are kept.
\<close>

theorem terminal_session_still_advanced:
  "update_player_physics c (s\<lparr>is_completed := b\<rparr>) os k d =
     (update_player_physics c s os k d)\<lparr>is_completed := b\<rparr>
   \<and> update_player_physics c (s\<lparr>is_game_over := True\<rparr>) os k d =
     (update_player_physics c s os k d)\<lparr>is_game_over := True\<rparr>"
  by (simp add: update_player_physics_def before_fall_check_flags fall_commit_flags)

section \<open>Collectibles\<close>

text \<open>
  Claim C3. The credit of collectibles is idempotent per object id. In a tick where every
  collectible that the player's box intersects is already in \<^verbatim>\<open>collected_objects\<close>, the
  coin count, the score and the list are unchanged. A collectible that the box intersects
  has its id in \<^verbatim>\<open>collected_objects\<close> after the tick. Over any number of ticks, with any
  inputs, the ids added to \<^verbatim>\<open>collected_objects\<close> are those of a list of collectible level
  objects with pairwise different ids, none of them in the list before; the coin count
  grows by the length of that list and the score by the sum of its \<^verbatim>\<open>points_value\<close>s: each
  id is added, counted and scored once.
\<close>

theorem collectible_credit_once:
  "((\<forall>obj\<in>set os. is_collectible obj
        \<and> intersects (player_box_of (tentative d (update_velocity c k d s))) (obj_box obj)
        \<longrightarrow> obj_id obj \<in> set (collected_objects s))
     \<longrightarrow> coins_collected (update_player_physics c s os k d) = coins_collected s
       \<and> current_score (update_player_physics c s os k d) = current_score s
       \<and> collected_objects (update_player_physics c s os k d) = collected_objects s)
   \<and> (\<forall>obj\<in>set os. is_collectible obj
        \<and> intersects (player_box_of (tentative d (update_velocity c k d s))) (obj_box obj)
        \<longrightarrow> obj_id obj \<in> set (collected_objects (update_player_physics c s os k d)))
   \<and> (\<exists>cr. set cr \<subseteq> set os \<and> (\<forall>obj\<in>set cr. is_collectible obj)
        \<and> collected_objects (run_ticks c os inputs s) = collected_objects s @ map obj_id cr
        \<and> distinct (map obj_id cr)
        \<and> set (map obj_id cr) \<inter> set (collected_objects s) = {}
        \<and> coins_collected (run_ticks c os inputs s) = coins_collected s + int (length cr)
        \<and> current_score (run_ticks c os inputs s) =
            current_score s + sum_list (map points_value cr))"
proof -
  let ?pb = "player_box_of (tentative d (update_velocity c k d s))"
  let ?q = "collectible_objects (collision_pass os (tentative d (update_velocity c k d s)))"
  let ?s' = "update_player_physics c s os k d"
  have q: "?q = filter (\<lambda>obj. intersects ?pb (obj_box obj) \<and> is_collectible obj
                    \<and> obj_id obj \<notin> set (collected_objects s)) os"
    by (rule tick_queue)
  have col: "collected_objects ?s' = collected_objects (foldl collect_step s ?q)"
    using tick_credit [of c s os k d] by simp
  have a: "coins_collected ?s' = coins_collected s \<and> current_score ?s' = current_score s
      \<and> collected_objects ?s' = collected_objects s"
    if "\<forall>obj\<in>set os. is_collectible obj \<and> intersects ?pb (obj_box obj)
        \<longrightarrow> obj_id obj \<in> set (collected_objects s)"
  proof -
    from that have "?q = []"
      unfolding q by (auto simp add: filter_empty_conv)
    with tick_credit [of c s os k d] show ?thesis by simp
  qed
  have b: "obj_id obj \<in> set (collected_objects ?s')"
    if "obj \<in> set os" "is_collectible obj" "intersects ?pb (obj_box obj)" for obj
  proof (cases "obj_id obj \<in> set (collected_objects s)")
    case True
    with collect_fold_all_collected [of ?q s] show ?thesis
      unfolding col by blast
  next
    case False
    with that have "obj \<in> set ?q"
      unfolding q by simp
    with collect_fold_all_collected [of ?q s] show ?thesis
      unfolding col by blast
  qed
  show ?thesis
    using a b run_account [of os c inputs s] by blast
qed

theorem collectible_credit_once_witness:
  "is_collectible first_coin
   \<and> intersects (player_box_of (tentative default_delta_time
         (update_velocity default_config no_keys default_delta_time coin_session)))
       (obj_box first_coin)
   \<and> obj_id first_coin \<in> set (collected_objects
         (update_player_physics default_config coin_session [first_coin] no_keys
            default_delta_time))
   \<and> intersects (player_box_of (tentative default_delta_time
         (update_velocity default_config no_keys default_delta_time coin_session_credited)))
       (obj_box first_coin)
   \<and> obj_id first_coin \<in> set (collected_objects coin_session_credited)
   \<and> coins_collected (update_player_physics default_config coin_session_credited
         [first_coin] no_keys default_delta_time) = 1
   \<and> current_score (update_player_physics default_config coin_session_credited
         [first_coin] no_keys default_delta_time) = 100
   \<and> collected_objects (update_player_physics default_config coin_session_credited
         [first_coin] no_keys default_delta_time) = [Some 7]"
proof -
  have c: "is_collectible first_coin"
    by (simp add: first_coin_def)
  have i1: "intersects (player_box_of (tentative default_delta_time
         (update_velocity default_config no_keys default_delta_time coin_session)))
       (obj_box first_coin)"
    by (simp add: engine_eval dec_eval example_defs)
  have i2: "intersects (player_box_of (tentative default_delta_time
         (update_velocity default_config no_keys default_delta_time coin_session_credited)))
       (obj_box first_coin)"
    by (simp add: engine_eval dec_eval example_defs)
  have m: "obj_id first_coin = Some 7"
    by (simp add: first_coin_def)
  have f: "coins_collected coin_session_credited = 1"
    "current_score coin_session_credited = 100"
    "collected_objects coin_session_credited = [Some 7]"
    by (simp_all add: coin_session_credited_def)
  show ?thesis
    using collectible_credit_once [of "[first_coin]" default_delta_time default_config no_keys
        coin_session "[]"]
      collectible_credit_once [of "[first_coin]" default_delta_time default_config no_keys
        coin_session_credited "[]"]
    by (simp add: c i1 i2 m f)
qed

section \<open>Friction over consecutive ticks\<close>

text \<open>
  Claim C7, as stated, at a session at rest on the main ground of the default level with
  horizontal velocity 10, the default configuration (friction 0.8) and three ticks of the
  default frame time without input: the velocities are 8, 7.6 and 6.08, and the last is not
  below 6. Friction applies in the first and the third tick only; the second tick starts
  with \<^verbatim>\<open>is_on_ground\<close> false, because the box of a player at rest on a platform touches
  it without intersecting it.
\<close>

theorem friction_below_six_counterexample:
  "friction default_config = 8 / 10
   \<and> player_velocity_x sliding_session = 10 \<and> is_on_ground sliding_session
   \<and> player_velocity_x (run_ticks default_config [main_ground]
        [(no_keys, default_delta_time)] sliding_session) = 8
   \<and> player_velocity_x (run_ticks default_config [main_ground]
        [(no_keys, default_delta_time), (no_keys, default_delta_time)] sliding_session) = 76 / 10
   \<and> player_velocity_x (run_ticks default_config [main_ground]
        [(no_keys, default_delta_time), (no_keys, default_delta_time),
         (no_keys, default_delta_time)] sliding_session) = 608 / 100
   \<and> \<not> player_velocity_x (run_ticks default_config [main_ground]
        [(no_keys, default_delta_time), (no_keys, default_delta_time),
         (no_keys, default_delta_time)] sliding_session) < 6"
proof -
  have h: "friction default_config = 8 / 10"
    "player_velocity_x sliding_session = 10" "is_on_ground sliding_session"
    by (simp_all add: default_config_def sliding_session_def)
  show ?thesis
    by (simp only: h sliding_run) simp
qed

text \<open>
  Claim C7, amended. With friction 0.8 and air resistance 0.95, from horizontal velocity 10
  and \<^verbatim>\<open>is_on_ground\<close> true, three ticks without input, on any level and with any frame
  times, give a sequence of horizontal velocities that never increases and starts below
  10: after the first tick 8 or 0, after the second 7.6, 6.4 or 0, after the third 7.22,
  6.08 or 0 (0 after a horizontal collision or a respawn). The final value is never
  strictly between 0 and 6: friction cannot apply in all three ticks, since a tick that
  starts on the ground without a jump ends off the ground unless it lands, and a landing
  leaves the vertical velocity 0, with which the next tick cannot land.
\<close>

theorem friction_three_ticks:
  assumes "friction c = 8 / 10" and "air_resistance c = 95 / 100"
    and "player_velocity_x s = 10" and "is_on_ground s"
  shows "(player_velocity_x (run_ticks c os [(no_keys, d1)] s) = 0
          \<or> player_velocity_x (run_ticks c os [(no_keys, d1)] s) = 8)
    \<and> (player_velocity_x (run_ticks c os [(no_keys, d1), (no_keys, d2)] s) = 0
          \<or> player_velocity_x (run_ticks c os [(no_keys, d1), (no_keys, d2)] s) = 64 / 10
          \<or> player_velocity_x (run_ticks c os [(no_keys, d1), (no_keys, d2)] s) = 76 / 10)
    \<and> (player_velocity_x (run_ticks c os [(no_keys, d1), (no_keys, d2), (no_keys, d3)] s) = 0
          \<or> player_velocity_x (run_ticks c os [(no_keys, d1), (no_keys, d2), (no_keys, d3)] s)
              = 608 / 100
          \<or> player_velocity_x (run_ticks c os [(no_keys, d1), (no_keys, d2), (no_keys, d3)] s)
              = 722 / 100)
    \<and> player_velocity_x (run_ticks c os [(no_keys, d1)] s) < player_velocity_x s
    \<and> player_velocity_x (run_ticks c os [(no_keys, d1), (no_keys, d2)] s)
        \<le> player_velocity_x (run_ticks c os [(no_keys, d1)] s)
    \<and> player_velocity_x (run_ticks c os [(no_keys, d1), (no_keys, d2), (no_keys, d3)] s)
        \<le> player_velocity_x (run_ticks c os [(no_keys, d1), (no_keys, d2)] s)
    \<and> \<not> (0 < player_velocity_x (run_ticks c os [(no_keys, d1), (no_keys, d2), (no_keys, d3)] s)
          \<and> player_velocity_x (run_ticks c os [(no_keys, d1), (no_keys, d2), (no_keys, d3)] s)
              < 6)"
proof -
  define s1 where "s1 = update_player_physics c s os no_keys d1"
  define s2 where "s2 = update_player_physics c s1 os no_keys d2"
  define s3 where "s3 = update_player_physics c s2 os no_keys d3"
  note cd = coast_default [OF assms(1,2)]
  have r: "run_ticks c os [(no_keys, d1)] s = s1"
    "run_ticks c os [(no_keys, d1), (no_keys, d2)] s = s2"
    "run_ticks c os [(no_keys, d1), (no_keys, d2), (no_keys, d3)] s = s3"
    by (simp_all add: s1_def s2_def s3_def)
  have t1: "player_velocity_x s1 = 0
      \<or> player_velocity_x s1 = coast c (is_on_ground s) (player_velocity_x s)"
    unfolding s1_def by (rule tick_coast)
  have t2: "player_velocity_x s2 = 0
      \<or> player_velocity_x s2 = coast c (is_on_ground s1) (player_velocity_x s1)"
    unfolding s2_def by (rule tick_coast)
  have t3: "player_velocity_x s3 = 0
      \<or> player_velocity_x s3 = coast c (is_on_ground s2) (player_velocity_x s2)"
    unfolding s3_def by (rule tick_coast)
  have g: "is_on_ground s1 \<Longrightarrow> \<not> is_on_ground s2"
    using tick_grounded_at_rest [of c s os no_keys d1] tick_leaves_ground [of s1 c os d2]
    by (auto simp add: s1_def s2_def)
  have v1: "player_velocity_x s1 = 0 \<or> player_velocity_x s1 = 8"
    using coast_cases [OF t1 assms(3)] assms(4) cd(2) by (simp only: simp_thms)
  have v2: "player_velocity_x s2 = 0
      \<or> (player_velocity_x s2 = 64 / 10 \<and> is_on_ground s1)
      \<or> player_velocity_x s2 = 76 / 10"
  proof (cases "is_on_ground s1")
    case True
    then have t: "player_velocity_x s2 = 0
        \<or> player_velocity_x s2 = coast c True (player_velocity_x s1)"
      using t2 by (simp only: simp_thms)
    from v1 show ?thesis
    proof
      assume "player_velocity_x s1 = 0"
      from coast_cases [OF t this cd(1)] show ?thesis by blast
    next
      assume "player_velocity_x s1 = 8"
      from coast_cases [OF t this cd(3)] True show ?thesis by blast
    qed
  next
    case False
    then have t: "player_velocity_x s2 = 0
        \<or> player_velocity_x s2 = coast c False (player_velocity_x s1)"
      using t2 by (simp only: simp_thms)
    from v1 show ?thesis
    proof
      assume "player_velocity_x s1 = 0"
      from coast_cases [OF t this cd(1)] show ?thesis by blast
    next
      assume "player_velocity_x s1 = 8"
      from coast_cases [OF t this cd(4)] show ?thesis by blast
    qed
  qed
  have m2: "player_velocity_x s2 \<le> player_velocity_x s1"
  proof -
    from v1 t2 have "player_velocity_x s2 = 0 \<and> player_velocity_x s1 = 0
        \<or> player_velocity_x s1 = 8"
      using coast_cases [OF t2 _ cd(1)] by blast
    with v2 show ?thesis by auto
  qed
  have v3: "(player_velocity_x s3 = 0 \<or> player_velocity_x s3 = 608 / 100
      \<or> player_velocity_x s3 = 722 / 100) \<and> player_velocity_x s3 \<le> player_velocity_x s2"
  proof (cases "is_on_ground s2")
    case True
    then have t: "player_velocity_x s3 = 0
        \<or> player_velocity_x s3 = coast c True (player_velocity_x s2)"
      using t3 by (simp only: simp_thms)
    from True g have n: "\<not> is_on_ground s1" by blast
    from v2 n consider "player_velocity_x s2 = 0" | "player_velocity_x s2 = 76 / 10"
      by blast
    then show ?thesis
    proof cases
      case 1
      from coast_cases [OF t 1 cd(1)] 1 show ?thesis by auto
    next
      case 2
      from coast_cases [OF t 2 cd(6)] 2 show ?thesis by auto
    qed
  next
    case False
    then have t: "player_velocity_x s3 = 0
        \<or> player_velocity_x s3 = coast c False (player_velocity_x s2)"
      using t3 by (simp only: simp_thms)
    from v2 consider "player_velocity_x s2 = 0" | "player_velocity_x s2 = 64 / 10"
      | "player_velocity_x s2 = 76 / 10"
      by blast
    then show ?thesis
    proof cases
      case 1
      from coast_cases [OF t 1 cd(1)] 1 show ?thesis by auto
    next
      case 2
      from coast_cases [OF t 2 cd(5)] 2 show ?thesis by auto
    next
      case 3
      from coast_cases [OF t 3 cd(7)] 3 show ?thesis by auto
    qed
  qed
  have v2': "player_velocity_x s2 = 0 \<or> player_velocity_x s2 = 64 / 10
      \<or> player_velocity_x s2 = 76 / 10"
    using v2 by blast
  have l1: "player_velocity_x s1 < player_velocity_x s"
    using v1 assms(3) by auto
  have nb: "\<not> (0 < player_velocity_x s3 \<and> player_velocity_x s3 < 6)"
    using v3 by auto
  show ?thesis
    unfolding r using v1 v2' v3 m2 l1 nb by blast
qed

theorem friction_three_ticks_witness:
  "friction default_config = 8 / 10 \<and> air_resistance default_config = 95 / 100
   \<and> player_velocity_x sliding_session = 10 \<and> is_on_ground sliding_session
   \<and> player_velocity_x (run_ticks default_config [main_ground]
        [(no_keys, default_delta_time), (no_keys, default_delta_time),
         (no_keys, default_delta_time)] sliding_session)
      \<le> player_velocity_x (run_ticks default_config [main_ground]
        [(no_keys, default_delta_time), (no_keys, default_delta_time)] sliding_session)
   \<and> player_velocity_x (run_ticks default_config [main_ground]
        [(no_keys, default_delta_time), (no_keys, default_delta_time)] sliding_session)
      \<le> player_velocity_x (run_ticks default_config [main_ground]
        [(no_keys, default_delta_time)] sliding_session)
   \<and> player_velocity_x (run_ticks default_config [main_ground]
        [(no_keys, default_delta_time)] sliding_session) < 10"
proof -
  have h: "friction default_config = 8 / 10" "air_resistance default_config = 95 / 100"
    "player_velocity_x sliding_session = 10" "is_on_ground sliding_session"
    by (simp_all add: default_config_def sliding_session_def)
  from friction_three_ticks [OF h, of "[main_ground]" default_delta_time default_delta_time
      default_delta_time] h
  show ?thesis by simp
qed

section \<open>End to end: the fall from the spawn point\<close>

text \<open>
  Claim C6, as stated: the session spawned at (100, 400) with zero velocity on the default
  level (gravity 0.8), over the single platform at \<open>y = 550\<close> spanning \<open>x\<close> in [0, 800),
  run for 120 ticks without input at the default frame time. It does not end at rest on
  the platform: the conjunction of \<^verbatim>\<open>is_on_ground\<close>, zero vertical velocity and
  \<open>y = 550 - 32\<close> fails.
\<close>

theorem rest_after_120_counterexample:
  "player_x (start_new_session 1 1 world_1_1) = 100
   \<and> player_y (start_new_session 1 1 world_1_1) = 400
   \<and> player_velocity_x (start_new_session 1 1 world_1_1) = 0
   \<and> player_velocity_y (start_new_session 1 1 world_1_1) = 0
   \<and> gravity (level (start_new_session 1 1 world_1_1)) = 8 / 10
   \<and> \<not> (is_on_ground (run_ticks default_config [main_ground]
             (replicate 120 (no_keys, default_delta_time)) (start_new_session 1 1 world_1_1))
        \<and> player_velocity_y (run_ticks default_config [main_ground]
             (replicate 120 (no_keys, default_delta_time)) (start_new_session 1 1 world_1_1)) = 0
        \<and> player_y (run_ticks default_config [main_ground]
             (replicate 120 (no_keys, default_delta_time)) (start_new_session 1 1 world_1_1))
           = 550 - 32)"
proof -
  have "\<not> is_on_ground (falling_at y vy)" for y vy
    by (simp add: falling_at_def start_new_session_def)
  then show ?thesis
    by (simp only: fall_120) (simp add: start_new_session_def world_1_1_def)
qed

text \<open>
  Claim C6, amended. In that run the player is still in the air after 120 ticks:
  \<^verbatim>\<open>is_on_ground\<close> is false, the vertical velocity is 1.599999999999999936 and \<open>y\<close> is
  416.1333333333333320426666666, since gravity adds only \<open>0.8 * dt\<close> per tick. The player
  is at rest on the platform, with \<^verbatim>\<open>is_on_ground\<close> true, vertical velocity 0 and
  \<open>y = 550 - 32\<close>, after 326 ticks: the tick of the landing.
\<close>

theorem airborne_after_120_landed_after_326:
  "\<not> is_on_ground (run_ticks default_config [main_ground]
        (replicate 120 (no_keys, default_delta_time)) (start_new_session 1 1 world_1_1))
   \<and> player_velocity_y (run_ticks default_config [main_ground]
        (replicate 120 (no_keys, default_delta_time)) (start_new_session 1 1 world_1_1))
      = 15999999999999999360 / 10 ^ 19
   \<and> player_y (run_ticks default_config [main_ground]
        (replicate 120 (no_keys, default_delta_time)) (start_new_session 1 1 world_1_1))
      = 4161333333333333320426666666 / 10 ^ 25
   \<and> is_on_ground (run_ticks default_config [main_ground]
        (replicate 326 (no_keys, default_delta_time)) (start_new_session 1 1 world_1_1))
   \<and> player_velocity_y (run_ticks default_config [main_ground]
        (replicate 326 (no_keys, default_delta_time)) (start_new_session 1 1 world_1_1)) = 0
   \<and> player_y (run_ticks default_config [main_ground]
        (replicate 326 (no_keys, default_delta_time)) (start_new_session 1 1 world_1_1))
      = 550 - 32"
proof -
  have f: "\<not> is_on_ground (falling_at y vy)" "player_velocity_y (falling_at y vy) = vy"
    "player_y (falling_at y vy) = y" for y vy
    by (simp_all add: falling_at_def start_new_session_def)
  show ?thesis
    by (simp only: fall_120 fall_326 f) (simp add: start_new_session_def)
qed

end
